theory Spec2Isabelle
  imports Complex_Main "HOL-Library.Word" "HOL-Library.Monad_Syntax"
begin

section \<open>HC-SR04 ultrasonic driver: configuration, cycle guard and the two engines\<close>

text \<open>
  The driver targets the Arduino UNO: \<^verbatim>\<open>unsigned long\<close> is a 32-bit word whose
  subtraction wraps, \<^verbatim>\<open>uint8_t\<close> an 8-bit word, and \<^verbatim>\<open>float\<close> is the IEEE 754
  single-precision format, whose operations round to the nearest value, ties to even.
\<close>

type_synonym uint8_t = "8 word"
type_synonym ulong = "32 word"

subsection \<open>Single-precision floating point\<close>

text \<open>
  A \<^verbatim>\<open>float\<close> is a finite value (carried as the real number it stands for), the
  negative zero, an infinity or a NaN. Every operation computes the exact real result and
  rounds it: to the nearest multiple of the spacing of the format at that magnitude
  (\<open>2 ^ (e - 23)\<close> for a magnitude in \<open>[2 ^ e, 2 ^ (e + 1))\<close>, and \<open>2 ^ - 149\<close>
  below \<open>2 ^ - 126\<close>), a tie going to the even multiple, and to an infinity from
  \<open>2 ^ 128\<close> on.
\<close>

datatype float32 = Fin real | NegZero | PInf | NInf | NaN

text \<open>
  Only reals that the format can hold occur under \<open>Fin\<close> in an execution: each one is
  the result of a rounding. The statements below hold for every value of the type.
\<close>

text \<open>
  The binary exponent of a positive magnitude, found by halving or doubling until the value
  lies in \<open>[1, 2)\<close>; 300 steps cover every exact result of an operation on two floats.
\<close>

fun expo_search :: "nat \<Rightarrow> real \<Rightarrow> int" where
  "expo_search 0 a = 0"
| "expo_search (Suc n) a =
     (if 2 \<le> a then expo_search n (a / 2) + 1
      else if a < 1 then expo_search n (2 * a) - 1
      else 0)"

definition expo :: "real \<Rightarrow> int" where
  "expo a = max (- 126) (expo_search 300 a)"

definition round_even :: "real \<Rightarrow> int" where
  "round_even n =
     (let f = \<lfloor>n\<rfloor>; r = n - of_int f
      in if r < 1 / 2 then f else if 1 / 2 < r then f + 1 else if even f then f else f + 1)"

definition round_mag :: "real \<Rightarrow> real" where
  "round_mag a = (let q = 2 powi (expo a - 23) in of_int (round_even (a / q)) * q)"

text \<open>
  \<open>fround neg x\<close> is the float for the exact result \<open>x\<close>; \<open>neg\<close> is the sign a zero
  result takes.
\<close>

definition fround :: "bool \<Rightarrow> real \<Rightarrow> float32" where
  "fround neg x =
     (let r = round_mag \<bar>x\<bar>
      in if 2 ^ 128 \<le> r then (if x < 0 then NInf else PInf)
         else if r = 0 then (if neg then NegZero else Fin 0)
         else Fin (if x < 0 then - r else r))"

fun fval :: "float32 \<Rightarrow> real" where
  "fval (Fin a) = a"
| "fval x = 0"

fun fsign :: "float32 \<Rightarrow> bool" where
  "fsign (Fin a) = (a < 0)"
| "fsign NegZero = True"
| "fsign NInf = True"
| "fsign x = False"

definition is_nan :: "float32 \<Rightarrow> bool" where
  "is_nan x = (x = NaN)"

definition is_inf :: "float32 \<Rightarrow> bool" where
  "is_inf x = (x = PInf \<or> x = NInf)"

definition is_zero :: "float32 \<Rightarrow> bool" where
  "is_zero x = (x = Fin 0 \<or> x = NegZero)"

definition finf :: "bool \<Rightarrow> float32" where
  "finf neg = (if neg then NInf else PInf)"

definition fzero :: "bool \<Rightarrow> float32" where
  "fzero neg = (if neg then NegZero else Fin 0)"

definition fmul :: "float32 \<Rightarrow> float32 \<Rightarrow> float32" where
  "fmul x y =
     (let neg = (fsign x \<noteq> fsign y)
      in if is_nan x \<or> is_nan y then NaN
         else if is_inf x \<or> is_inf y then (if is_zero x \<or> is_zero y then NaN else finf neg)
         else fround neg (fval x * fval y))"

definition fdiv :: "float32 \<Rightarrow> float32 \<Rightarrow> float32" where
  "fdiv x y =
     (let neg = (fsign x \<noteq> fsign y)
      in if is_nan x \<or> is_nan y then NaN
         else if is_inf x then (if is_inf y then NaN else finf neg)
         else if is_inf y then fzero neg
         else if is_zero y then (if is_zero x then NaN else finf neg)
         else fround neg (fval x / fval y))"

text \<open>Comparison: false as soon as a NaN is involved, the order of the values otherwise.\<close>

fun flt :: "float32 \<Rightarrow> float32 \<Rightarrow> bool" where
  "flt NaN y = False"
| "flt x NaN = False"
| "flt x NInf = False"
| "flt NInf y = True"
| "flt PInf y = False"
| "flt x PInf = True"
| "flt x y = (fval x < fval y)"

definition fgt :: "float32 \<Rightarrow> float32 \<Rightarrow> bool" where
  "fgt x y = flt y x"

text \<open>
  A decimal literal such as \<^verbatim>\<open>0.02F\<close> is the float nearest to its decimal value;
  \<^verbatim>\<open>static_cast<float>\<close> of an \<^verbatim>\<open>unsigned long\<close> is the float nearest to the integer.
\<close>

definition float_literal :: "real \<Rightarrow> float32" where
  "float_literal q = fround (q < 0) q"

definition float_of_ulong :: "ulong \<Rightarrow> float32" where
  "float_of_ulong n = fround False (real (unat n))"

subsection \<open>Constants and status codes (hcsr04.hpp)\<close>

definition HCSR04_CM_PER_US :: float32 where
  "HCSR04_CM_PER_US = float_literal (343 / 10000)"

definition HCSR04_DEFAULT_TIMEOUT_US :: ulong where
  "HCSR04_DEFAULT_TIMEOUT_US = 30000"

definition HCSR04_TRIG_PULSE_US :: nat where
  "HCSR04_TRIG_PULSE_US = 10"

definition HCSR04_DEFAULT_MIN_CYCLE_US :: ulong where
  "HCSR04_DEFAULT_MIN_CYCLE_US = 60000"

datatype HCSR04_Status =
    HCSR04_OK
  | HCSR04_ERR_TIMEOUT_TRIG
  | HCSR04_ERR_TIMEOUT_ECHO_START
  | HCSR04_ERR_TIMEOUT_ECHO_END
  | HCSR04_ERR_BUSY
  | HCSR04_ERR_NOT_READY
  | HCSR04_ERR_BAD_STATE
  | HCSR04_ERR_BAD_PARAM

subsection \<open>The platform: clock, pins, delays\<close>

text \<open>
  The Arduino primitives are the driver's only contact with the outside. The world holds
  what the platform will answer (the successive results of \<^verbatim>\<open>micros()\<close> and of
  \<^verbatim>\<open>digitalRead\<close>) and a log of what the driver did to it (pin modes, pin writes,
  delays, interrupt registration). A primitive that asks for an answer the world does not
  hold returns \<open>None\<close>.
\<close>

datatype level = LOW | HIGH

datatype pin_mode = INPUT | OUTPUT

datatype io_event =
    PinMode uint8_t pin_mode
  | DigitalWrite uint8_t level
  | DelayMicroseconds nat
  | AttachInterrupt uint8_t
  | DetachInterrupt uint8_t

record world =
  clock_in :: "ulong list"
  level_in :: "level list"
  io_log :: "io_event list"

definition micros :: "world \<Rightarrow> (ulong \<times> world) option" where
  "micros w = (case clock_in w of
                 [] \<Rightarrow> None
               | t # ts \<Rightarrow> Some (t, w\<lparr>clock_in := ts\<rparr>))"

definition digitalRead :: "uint8_t \<Rightarrow> world \<Rightarrow> (level \<times> world) option" where
  "digitalRead pin w = (case level_in w of
                          [] \<Rightarrow> None
                        | l # ls \<Rightarrow> Some (l, w\<lparr>level_in := ls\<rparr>))"

definition emit :: "io_event \<Rightarrow> world \<Rightarrow> world" where
  "emit e w = w\<lparr>io_log := io_log w @ [e]\<rparr>"

definition pinMode :: "uint8_t \<Rightarrow> pin_mode \<Rightarrow> world \<Rightarrow> world" where
  "pinMode pin m w = emit (PinMode pin m) w"

definition digitalWrite :: "uint8_t \<Rightarrow> level \<Rightarrow> world \<Rightarrow> world" where
  "digitalWrite pin l w = emit (DigitalWrite pin l) w"

definition delayMicroseconds :: "nat \<Rightarrow> world \<Rightarrow> world" where
  "delayMicroseconds n w = emit (DelayMicroseconds n) w"

subsection \<open>The base class \<^verbatim>\<open>IHCSR04\<close> (hcsr04.hpp)\<close>

record IHCSR04 =
  m_trig_pin :: uint8_t
  m_echo_pin :: uint8_t
  m_timeout_us :: ulong
  m_cm_per_us :: float32
  m_min_cycle_us :: ulong
  m_last_shot_us :: ulong

text \<open>The constructor stores its arguments as they are and zeroes the last-shot mark.\<close>

definition IHCSR04_ctor :: "uint8_t \<Rightarrow> uint8_t \<Rightarrow> ulong \<Rightarrow> float32 \<Rightarrow> ulong \<Rightarrow> IHCSR04" where
  "IHCSR04_ctor trig_pin echo_pin timeout_us cm_per_us min_cycle_us =
     \<lparr> m_trig_pin = trig_pin, m_echo_pin = echo_pin, m_timeout_us = timeout_us,
       m_cm_per_us = cm_per_us, m_min_cycle_us = min_cycle_us, m_last_shot_us = 0 \<rparr>"

definition setTrigPin :: "'a IHCSR04_scheme \<Rightarrow> uint8_t \<Rightarrow> HCSR04_Status \<times> 'a IHCSR04_scheme" where
  "setTrigPin d trig_pin =
     (if trig_pin \<noteq> m_echo_pin d then (HCSR04_OK, d\<lparr>m_trig_pin := trig_pin\<rparr>)
      else (HCSR04_ERR_BAD_PARAM, d))"

definition setEchoPin :: "'a IHCSR04_scheme \<Rightarrow> uint8_t \<Rightarrow> HCSR04_Status \<times> 'a IHCSR04_scheme" where
  "setEchoPin d echo_pin =
     (if echo_pin \<noteq> m_trig_pin d then (HCSR04_OK, d\<lparr>m_echo_pin := echo_pin\<rparr>)
      else (HCSR04_ERR_BAD_PARAM, d))"

definition setTimeoutUs :: "'a IHCSR04_scheme \<Rightarrow> ulong \<Rightarrow> HCSR04_Status \<times> 'a IHCSR04_scheme" where
  "setTimeoutUs d timeout_us =
     (if timeout_us \<ge> of_nat HCSR04_TRIG_PULSE_US + 100 then (HCSR04_OK, d\<lparr>m_timeout_us := timeout_us\<rparr>)
      else (HCSR04_ERR_BAD_PARAM, d))"

definition setMinCycleUs :: "'a IHCSR04_scheme \<Rightarrow> ulong \<Rightarrow> HCSR04_Status \<times> 'a IHCSR04_scheme" where
  "setMinCycleUs d min_cycle_us =
     (if min_cycle_us \<noteq> 0 then (HCSR04_OK, d\<lparr>m_min_cycle_us := min_cycle_us\<rparr>)
      else (HCSR04_ERR_BAD_PARAM, d))"

definition setSoundSpeed :: "'a IHCSR04_scheme \<Rightarrow> float32 \<Rightarrow> HCSR04_Status \<times> 'a IHCSR04_scheme" where
  "setSoundSpeed d cm_per_us =
     (if fgt cm_per_us (float_literal (2 / 100)) \<and> flt cm_per_us (float_literal (6 / 100)) then (HCSR04_OK, d\<lparr>m_cm_per_us := cm_per_us\<rparr>)
      else (HCSR04_ERR_BAD_PARAM, d))"

text \<open>
  \<^verbatim>\<open>canStartShot_\<close> reads the clock once; the subtraction is the word subtraction, which
  wraps.
\<close>

definition canStartShot :: "'a IHCSR04_scheme \<Rightarrow> world \<Rightarrow> (HCSR04_Status \<times> world) option" where
  "canStartShot d w =
     do { (now_us, w1) \<leftarrow> micros w;
          let elapsed = now_us - m_last_shot_us d;
          Some (if elapsed \<ge> m_min_cycle_us d then HCSR04_OK else HCSR04_ERR_BUSY, w1) }"

definition markShotStart :: "'a IHCSR04_scheme \<Rightarrow> world \<Rightarrow> ('a IHCSR04_scheme \<times> world) option" where
  "markShotStart d w =
     do { (now_us, w1) \<leftarrow> micros w;
          Some (d\<lparr>m_last_shot_us := now_us\<rparr>, w1) }"

text \<open>
  \<^verbatim>\<open>timeUsToCm_\<close> has a reference parameter: the model takes the content of the referenced
  variable before the call and returns its content after the call.
\<close>

definition timeUsToCm :: "'a IHCSR04_scheme \<Rightarrow> ulong \<Rightarrow> float32 \<Rightarrow> HCSR04_Status \<times> float32" where
  "timeUsToCm d echo_high_us out_cm =
     (if echo_high_us \<noteq> 0
      then (let half = float_literal (1 / 2)
            in (HCSR04_OK, fmul (fmul (float_of_ulong echo_high_us) (m_cm_per_us d)) half))
      else (HCSR04_ERR_BAD_PARAM, out_cm))"

text \<open>
  The distance as the specification writes it, \<open>high_time * speed_of_sound / 2\<close>, with
  the conversion, the product and the quotient of single precision.
\<close>

definition timeToDistance :: "ulong \<Rightarrow> float32 \<Rightarrow> float32" where
  "timeToDistance high_time speed_of_sound =
     fdiv (fmul (float_of_ulong high_time) speed_of_sound) (float_literal 2)"

subsection \<open>The trigger pulse\<close>

text \<open>
  Both engines drive the trigger line with the same five statements:
  low, 2 us, high, \<^verbatim>\<open>HCSR04_TRIG_PULSE_US\<close>, low.
\<close>

definition trigPulse :: "uint8_t \<Rightarrow> world \<Rightarrow> world" where
  "trigPulse pin w =
     digitalWrite pin LOW
       (delayMicroseconds HCSR04_TRIG_PULSE_US
         (digitalWrite pin HIGH
           (delayMicroseconds 2
             (digitalWrite pin LOW w))))"

subsection \<open>The polling engine (hcsr04_polling.cpp)\<close>

definition begin_polling :: "IHCSR04 \<Rightarrow> world \<Rightarrow> HCSR04_Status \<times> world" where
  "begin_polling d w =
     (HCSR04_OK,
      digitalWrite (m_trig_pin d) LOW
        (pinMode (m_echo_pin d) INPUT
          (pinMode (m_trig_pin d) OUTPUT w)))"

text \<open>
  The two busy-wait loops of \<^verbatim>\<open>read\<close> differ only in the level they wait for. Each
  iteration samples the echo pin, records the clock value read before the sample when the
  level is the awaited one, and reads the clock again. The recorded edge time doubles as
  the loop flag: zero means no edge yet.
\<close>

function wait_echo ::
  "level \<Rightarrow> uint8_t \<Rightarrow> ulong \<Rightarrow> ulong \<Rightarrow> ulong \<Rightarrow> ulong \<Rightarrow> world \<Rightarrow> (ulong \<times> world) option" where
  "wait_echo want pin t_start_us timeout_us now_us t_edge_us w =
     (if now_us - t_start_us < timeout_us \<and> t_edge_us = 0 then
        (case digitalRead pin w of
           None \<Rightarrow> None
         | Some (l, w1) \<Rightarrow>
             (case micros w1 of
                None \<Rightarrow> None
              | Some (now', w2) \<Rightarrow>
                  wait_echo want pin t_start_us timeout_us now'
                    (if l = want then now_us else t_edge_us) w2))
      else Some (t_edge_us, w))"
  by pat_completeness auto
termination
  by (relation "measure (\<lambda>(want, pin, t_start_us, timeout_us, now_us, t_edge_us, w). length (clock_in w))")
     (auto simp: micros_def digitalRead_def split: list.splits)

declare wait_echo.simps [simp del]

definition read_polling ::
  "IHCSR04 \<Rightarrow> float32 \<Rightarrow> world \<Rightarrow> (HCSR04_Status \<times> float32 \<times> IHCSR04 \<times> world) option" where
  "read_polling d out_cm w =
     do { (guard, w1) \<leftarrow> canStartShot d w;
          if guard = HCSR04_OK then
            do { (d1, w2) \<leftarrow> markShotStart d w1;
                 let w3 = trigPulse (m_trig_pin d1) w2;
                 (t_start_us, w4) \<leftarrow> micros w3;
                 let timeout_us = m_timeout_us d1;
                 (now_us, w5) \<leftarrow> micros w4;
                 (t_rise_us, w6) \<leftarrow> wait_echo HIGH (m_echo_pin d1) t_start_us timeout_us now_us 0 w5;
                 if t_rise_us = 0 then Some (HCSR04_ERR_TIMEOUT_ECHO_START, out_cm, d1, w6)
                 else
                   do { (now_us', w7) \<leftarrow> micros w6;
                        (t_fall_us, w8) \<leftarrow> wait_echo LOW (m_echo_pin d1) t_start_us timeout_us now_us' 0 w7;
                        if t_fall_us = 0 then Some (HCSR04_ERR_TIMEOUT_ECHO_END, out_cm, d1, w8)
                        else
                          (let echo_high_us = t_fall_us - t_rise_us;
                               (status, tmp_cm) = timeUsToCm d1 echo_high_us (float_literal 0)
                           in Some (status, if status = HCSR04_OK then tmp_cm else out_cm, d1, w8)) } }
          else Some (HCSR04_ERR_BAD_STATE, out_cm, d, w1) }"

subsection \<open>The interrupt engine (hcsr04_interrupt.cpp)\<close>

text \<open>
  The three static members shared with the interrupt routine extend the base record; the
  engine supports one instance, so the static back-reference is the object itself.
  \<^verbatim>\<open>read\<close> is modelled as one uninterrupted step: the routine fires between calls.
\<close>

record HCSR04_Interrupt = IHCSR04 +
  s_waiting_rise :: bool
  s_rise_us :: ulong
  s_fall_us :: ulong

definition HCSR04_Interrupt_ctor ::
  "uint8_t \<Rightarrow> uint8_t \<Rightarrow> ulong \<Rightarrow> float32 \<Rightarrow> ulong \<Rightarrow> HCSR04_Interrupt" where
  "HCSR04_Interrupt_ctor trig_pin echo_pin timeout_us cm_per_us min_cycle_us =
     \<lparr> m_trig_pin = trig_pin, m_echo_pin = echo_pin, m_timeout_us = timeout_us,
       m_cm_per_us = cm_per_us, m_min_cycle_us = min_cycle_us, m_last_shot_us = 0,
       s_waiting_rise = True, s_rise_us = 0, s_fall_us = 0 \<rparr>"

definition begin_interrupt :: "HCSR04_Interrupt \<Rightarrow> world \<Rightarrow> HCSR04_Status \<times> HCSR04_Interrupt \<times> world" where
  "begin_interrupt d w =
     (let w1 = digitalWrite (m_trig_pin d) LOW
                 (pinMode (m_echo_pin d) INPUT
                   (pinMode (m_trig_pin d) OUTPUT w));
          d1 = d\<lparr>s_waiting_rise := True, s_rise_us := 0, s_fall_us := 0\<rparr>
      in (HCSR04_OK, d1, emit (AttachInterrupt (m_echo_pin d)) w1))"

definition read_interrupt ::
  "HCSR04_Interrupt \<Rightarrow> float32 \<Rightarrow> world \<Rightarrow> (HCSR04_Status \<times> float32 \<times> HCSR04_Interrupt \<times> world) option" where
  "read_interrupt d out_cm w =
     do { (status, w1) \<leftarrow> canStartShot d w;
          (d2, w2) \<leftarrow>
            (if status = HCSR04_OK then
               do { (d1, w1') \<leftarrow> markShotStart d w1;
                    Some (d1\<lparr>s_waiting_rise := True, s_rise_us := 0, s_fall_us := 0\<rparr>,
                          trigPulse (m_trig_pin d1) w1') }
             else Some (d, w1));
          if s_rise_us d2 \<noteq> 0 \<and> s_fall_us d2 \<noteq> 0 then
            (let echo_high_us = s_fall_us d2 - s_rise_us d2;
                 (status', tmp_cm) = timeUsToCm d2 echo_high_us (float_literal 0)
             in Some (status', if status' = HCSR04_OK then tmp_cm else out_cm,
                      d2\<lparr>s_rise_us := 0, s_fall_us := 0\<rparr>, w2))
          else Some (HCSR04_ERR_NOT_READY, out_cm, d2, w2) }"

definition echoChangeISR :: "HCSR04_Interrupt \<Rightarrow> world \<Rightarrow> (HCSR04_Interrupt \<times> world) option" where
  "echoChangeISR d w =
     do { (l, w1) \<leftarrow> digitalRead (m_echo_pin d) w;
          (now_us, w2) \<leftarrow> micros w1;
          Some (if s_waiting_rise d then
                  (if l = HIGH then d\<lparr>s_rise_us := now_us, s_waiting_rise := False\<rparr> else d)
                else
                  (if l = LOW then d\<lparr>s_fall_us := now_us, s_waiting_rise := True\<rparr> else d),
                w2) }"

subsection \<open>Sequences of calls\<close>

text \<open>
  A caller configures the object through any sequence of setter calls; the status each
  call returns is dropped here, the object it leaves is kept.
\<close>

datatype setter_call =
    SetTrigPin uint8_t
  | SetEchoPin uint8_t
  | SetTimeoutUs ulong
  | SetMinCycleUs ulong
  | SetSoundSpeed float32

fun call_setter :: "'a IHCSR04_scheme \<Rightarrow> setter_call \<Rightarrow> 'a IHCSR04_scheme" where
  "call_setter d (SetTrigPin p) = snd (setTrigPin d p)"
| "call_setter d (SetEchoPin p) = snd (setEchoPin d p)"
| "call_setter d (SetTimeoutUs t) = snd (setTimeoutUs d t)"
| "call_setter d (SetMinCycleUs c) = snd (setMinCycleUs d c)"
| "call_setter d (SetSoundSpeed v) = snd (setSoundSpeed d v)"

text \<open>
  An execution of the interrupt engine interleaves calls of \<^verbatim>\<open>read\<close> by the caller with
  firings of the interrupt routine by the platform. The run collects the status of every
  \<^verbatim>\<open>read\<close>, and threads the caller's distance variable through the calls.
\<close>

datatype step = CallRead | FireISR

fun run_interrupt ::
  "step list \<Rightarrow> HCSR04_Interrupt \<Rightarrow> float32 \<Rightarrow> world \<Rightarrow>
     (HCSR04_Status list \<times> float32 \<times> HCSR04_Interrupt \<times> world) option" where
  "run_interrupt [] d out_cm w = Some ([], out_cm, d, w)"
| "run_interrupt (CallRead # ss) d out_cm w =
     (case read_interrupt d out_cm w of
        None \<Rightarrow> None
      | Some (st, out_cm1, d1, w1) \<Rightarrow>
          (case run_interrupt ss d1 out_cm1 w1 of
             None \<Rightarrow> None
           | Some (sts, r) \<Rightarrow> Some (st # sts, r)))"
| "run_interrupt (FireISR # ss) d out_cm w =
     (case echoChangeISR d w of
        None \<Rightarrow> None
      | Some (d1, w1) \<Rightarrow> run_interrupt ss d1 out_cm w1)"

text \<open>
  What the two busy-wait loops are for, read off the samples alone: the awaited level is
  seen in the window when some sample taken while the elapsed time since \<open>t_start_us\<close>
  is still below the timeout shows it. The clock value \<open>now_us\<close> is the one read before
  the sample, the head of the clock readings the one read after it.
\<close>

fun seen_in_window :: "level \<Rightarrow> ulong \<Rightarrow> ulong \<Rightarrow> ulong \<Rightarrow> level list \<Rightarrow> ulong list \<Rightarrow> bool" where
  "seen_in_window want t_start_us timeout_us now_us (l # ls) (c # cs) =
     (now_us - t_start_us < timeout_us \<and>
      (l = want \<or> seen_in_window want t_start_us timeout_us c ls cs))"
| "seen_in_window want t_start_us timeout_us now_us ls cs = False"

section \<open>Properties\<close>

subsection \<open>Single-precision values\<close>

lemma expo_search_numeral:
  "expo_search (numeral k) a =
     (if 2 \<le> a then expo_search (pred_numeral k) (a / 2) + 1
      else if a < 1 then expo_search (pred_numeral k) (2 * a) - 1
      else 0)"
  by (simp add: numeral_eq_Suc)

lemmas fround_eval = fround_def round_mag_def expo_def expo_search_numeral round_even_def
  Let_def power_int_minus

text \<open>
  Rounding at the edges of the format: a tie goes to the even neighbour, the largest
  \<^verbatim>\<open>unsigned long\<close> rounds up to \<open>2 ^ 32\<close>, half the spacing below \<open>2 ^ 128\<close>
  overflows, and half the smallest subnormal underflows to a zero that keeps the sign.
\<close>

lemma fround_edges:
  "float_of_ulong 16777217 = Fin 16777216"
  "float_of_ulong 16777219 = Fin 16777220"
  "float_of_ulong 4294967295 = Fin 4294967296"
  "fround False (2 ^ 128 - 2 ^ 103) = PInf"
  "fround False (2 ^ 128 - 2 ^ 103 - 1) = Fin (2 ^ 128 - 2 ^ 104)"
  "fround True (- (1 / 2 ^ 150)) = NegZero"
  "fround False (3 / 2 ^ 150) = Fin (1 / 2 ^ 148)"
  by (simp_all add: float_of_ulong_def fround_eval)

lemma float_literal_0: "float_literal 0 = Fin 0"
  by (simp add: float_literal_def fround_eval)

lemma float_literal_half: "float_literal (1 / 2) = Fin (1 / 2)"
  by (simp add: float_literal_def fround_eval)

lemma float_literal_2: "float_literal 2 = Fin 2"
  by (simp add: float_literal_def fround_eval)

lemma float_literal_0_02: "float_literal (2 / 100) = Fin (5368709 / 268435456)"
  by (simp add: float_literal_def fround_eval)

lemma float_literal_0_06: "float_literal (6 / 100) = Fin (16106127 / 268435456)"
  by (simp add: float_literal_def fround_eval)

lemma HCSR04_CM_PER_US_value: "HCSR04_CM_PER_US = Fin (1150917 / 33554432)"
  by (simp add: HCSR04_CM_PER_US_def float_literal_def fround_eval)

lemma float_of_ulong_600: "float_of_ulong 600 = Fin 600"
  by (simp add: float_of_ulong_def fround_eval)

lemma distance_600_us:
  "fmul (fmul (float_of_ulong 600) HCSR04_CM_PER_US) (float_literal (1 / 2)) = Fin (10789847 / 1048576)"
  by (simp add: float_of_ulong_600 HCSR04_CM_PER_US_value float_literal_half fmul_def is_nan_def
        is_inf_def is_zero_def fround_eval)

text \<open>Halving by multiplication and by division give the same float.\<close>

lemma fmul_half_fdiv_two: "fmul x (float_literal (1 / 2)) = fdiv x (float_literal 2)"
  by (cases x)
     (simp_all add: float_literal_half float_literal_2 fmul_def fdiv_def is_nan_def is_inf_def
        is_zero_def finf_def)

lemma flt_Fin: "flt (Fin a) (Fin b) \<longleftrightarrow> a < b"
  by simp

lemma setSoundSpeed_Fin:
  "setSoundSpeed d (Fin a) =
     (if 5368709 / 268435456 < a \<and> a < 16106127 / 268435456
      then (HCSR04_OK, d\<lparr>m_cm_per_us := Fin a\<rparr>)
      else (HCSR04_ERR_BAD_PARAM, d))"
  unfolding setSoundSpeed_def fgt_def float_literal_0_02 float_literal_0_06 by simp

subsection \<open>Wrapping subtraction and the platform primitives\<close>

lemma mod_wrap_nat:
  fixes a b N :: nat
  assumes "a < N" "b < N"
  shows "(a + N - b) mod N = (if b \<le> a then a - b else a + N - b)"
proof (cases "b \<le> a")
  case True
  have lt: "a - b < N" using assms by simp
  have "a + N - b = (a - b) + N" using True by simp
  then have "(a + N - b) mod N = ((a - b) + N) mod N" by (simp only:)
  also have "\<dots> = (a - b) mod N" by simp
  also have "\<dots> = a - b" using lt by simp
  finally show ?thesis using True by simp
next
  case False
  then have "a + N - b < N" using assms by simp
  then show ?thesis using False by simp
qed

lemma unat_sub_wrap: "unat (a - b :: 32 word) = (unat a + 2 ^ 32 - unat b) mod 2 ^ 32"
proof -
  have a: "unat a < 2 ^ 32" and b: "unat b < 2 ^ 32"
    using unsigned_less [of a, where 'a = nat] unsigned_less [of b, where 'a = nat] by simp_all
  have "unat (a - b) = (if unat b \<le> unat a then unat a - unat b else unat a + 2 ^ 32 - unat b)"
    by (simp only: unat_sub_if_size word_size) simp
  also have "\<dots> = (unat a + 2 ^ 32 - unat b) mod 2 ^ 32"
    by (rule mod_wrap_nat [OF a b, symmetric])
  finally show ?thesis .
qed

lemma unat_elapsed: "e < 2 ^ 32 \<Longrightarrow> unat ((t + of_nat e) - t :: 32 word) = e"
  by (simp add: unat_of_nat)

lemma micros_Cons: "clock_in w = t # ts \<Longrightarrow> micros w = Some (t, w\<lparr>clock_in := ts\<rparr>)"
  by (simp add: micros_def)

lemma micros_Some: "micros w = Some (t, w1) \<Longrightarrow> clock_in w = t # clock_in w1 \<and> level_in w1 = level_in w \<and> io_log w1 = io_log w"
  by (auto simp: micros_def split: list.splits)

lemma canStartShot_Cons:
  "clock_in w = now_us # rest \<Longrightarrow>
   canStartShot d w =
     Some (if m_min_cycle_us d \<le> now_us - m_last_shot_us d then HCSR04_OK else HCSR04_ERR_BUSY,
           w\<lparr>clock_in := rest\<rparr>)"
  by (simp add: canStartShot_def micros_Cons)

lemma markShotStart_Cons:
  "clock_in w = now_us # rest \<Longrightarrow>
   markShotStart d w = Some (d\<lparr>m_last_shot_us := now_us\<rparr>, w\<lparr>clock_in := rest\<rparr>)"
  by (simp add: markShotStart_def micros_Cons)

subsection \<open>What a call of either engine can do\<close>

lemma canStartShot_status:
  "canStartShot d w = Some (st, w1) \<Longrightarrow> st = HCSR04_OK \<or> st = HCSR04_ERR_BUSY"
  by (auto simp: canStartShot_def bind_eq_Some_conv split: if_splits)

lemma canStartShot_world:
  "canStartShot d w = Some (st, w1) \<Longrightarrow>
     clock_in w = hd (clock_in w) # clock_in w1 \<and> level_in w1 = level_in w \<and> io_log w1 = io_log w"
  by (auto simp: canStartShot_def bind_eq_Some_conv dest!: micros_Some)

lemma markShotStart_Some:
  "markShotStart d w = Some (d1, w1) \<Longrightarrow>
     (\<exists>t. d1 = d\<lparr>m_last_shot_us := t\<rparr> \<and> micros w = Some (t, w1))"
  by (auto simp: markShotStart_def bind_eq_Some_conv)

lemma read_polling_denied:
  "canStartShot d w = Some (HCSR04_ERR_BUSY, w1) \<Longrightarrow>
   read_polling d out_cm w = Some (HCSR04_ERR_BAD_STATE, out_cm, d, w1)"
  by (simp add: read_polling_def)

lemma timeUsToCm_cases:
  "timeUsToCm d hi out_cm =
     (if hi \<noteq> 0 then (HCSR04_OK, fmul (fmul (float_of_ulong hi) (m_cm_per_us d)) (float_literal (1 / 2))) else (HCSR04_ERR_BAD_PARAM, out_cm))"
  by (simp add: timeUsToCm_def)

lemma read_polling_granted:
  assumes "canStartShot d w = Some (HCSR04_OK, w1)"
    and "markShotStart d w1 = Some (d1, w2)"
    and "micros (trigPulse (m_trig_pin d) w2) = Some (t_start_us, w4)"
    and "micros w4 = Some (now_us, w5)"
  shows "read_polling d out_cm w =
     (case wait_echo HIGH (m_echo_pin d) t_start_us (m_timeout_us d) now_us 0 w5 of
        None \<Rightarrow> None
      | Some (t_rise_us, w6) \<Rightarrow>
          if t_rise_us = 0 then Some (HCSR04_ERR_TIMEOUT_ECHO_START, out_cm, d1, w6)
          else
            (case micros w6 of
               None \<Rightarrow> None
             | Some (now_us', w7) \<Rightarrow>
                 (case wait_echo LOW (m_echo_pin d) t_start_us (m_timeout_us d) now_us' 0 w7 of
                    None \<Rightarrow> None
                  | Some (t_fall_us, w8) \<Rightarrow>
                      if t_fall_us = 0 then Some (HCSR04_ERR_TIMEOUT_ECHO_END, out_cm, d1, w8)
                      else if t_fall_us \<noteq> t_rise_us
                      then Some (HCSR04_OK, fmul (fmul (float_of_ulong (t_fall_us - t_rise_us)) (m_cm_per_us d)) (float_literal (1 / 2)), d1, w8)
                      else Some (HCSR04_ERR_BAD_PARAM, out_cm, d1, w8))))"
proof -
  from markShotStart_Some [OF assms(2)] obtain t where d1: "d1 = d\<lparr>m_last_shot_us := t\<rparr>"
    by blast
  have f: "m_trig_pin d1 = m_trig_pin d" "m_echo_pin d1 = m_echo_pin d"
    "m_timeout_us d1 = m_timeout_us d" "m_cm_per_us d1 = m_cm_per_us d"
    by (simp_all add: d1)
  show ?thesis
    unfolding read_polling_def
    by (simp add: assms f Let_def timeUsToCm_cases split: option.split prod.split)
qed

lemma read_polling_Some:
  assumes r: "read_polling d out_cm w = Some (st, out_cm', d', w')"
  obtains (denied)
      "canStartShot d w = Some (HCSR04_ERR_BUSY, w')"
      "st = HCSR04_ERR_BAD_STATE" "out_cm' = out_cm" "d' = d"
    | (no_rise) w1 w2 t_start_us w4 now_us w5 where
      "canStartShot d w = Some (HCSR04_OK, w1)" "markShotStart d w1 = Some (d', w2)"
      "micros (trigPulse (m_trig_pin d) w2) = Some (t_start_us, w4)" "micros w4 = Some (now_us, w5)"
      "wait_echo HIGH (m_echo_pin d) t_start_us (m_timeout_us d) now_us 0 w5 = Some (0, w')"
      "st = HCSR04_ERR_TIMEOUT_ECHO_START" "out_cm' = out_cm"
    | (no_fall) w1 w2 t_start_us w4 now_us w5 t_rise_us w6 now_us' w7 where
      "canStartShot d w = Some (HCSR04_OK, w1)" "markShotStart d w1 = Some (d', w2)"
      "micros (trigPulse (m_trig_pin d) w2) = Some (t_start_us, w4)" "micros w4 = Some (now_us, w5)"
      "wait_echo HIGH (m_echo_pin d) t_start_us (m_timeout_us d) now_us 0 w5 = Some (t_rise_us, w6)"
      "t_rise_us \<noteq> 0" "micros w6 = Some (now_us', w7)"
      "wait_echo LOW (m_echo_pin d) t_start_us (m_timeout_us d) now_us' 0 w7 = Some (0, w')"
      "st = HCSR04_ERR_TIMEOUT_ECHO_END" "out_cm' = out_cm"
    | (measured) w1 w2 t_start_us w4 now_us w5 t_rise_us w6 now_us' w7 t_fall_us where
      "canStartShot d w = Some (HCSR04_OK, w1)" "markShotStart d w1 = Some (d', w2)"
      "micros (trigPulse (m_trig_pin d) w2) = Some (t_start_us, w4)" "micros w4 = Some (now_us, w5)"
      "wait_echo HIGH (m_echo_pin d) t_start_us (m_timeout_us d) now_us 0 w5 = Some (t_rise_us, w6)"
      "t_rise_us \<noteq> 0" "micros w6 = Some (now_us', w7)"
      "wait_echo LOW (m_echo_pin d) t_start_us (m_timeout_us d) now_us' 0 w7 = Some (t_fall_us, w')"
      "t_fall_us \<noteq> 0"
      "st = (if t_fall_us \<noteq> t_rise_us then HCSR04_OK else HCSR04_ERR_BAD_PARAM)"
      "out_cm' = (if t_fall_us \<noteq> t_rise_us
                  then fmul (fmul (float_of_ulong (t_fall_us - t_rise_us)) (m_cm_per_us d)) (float_literal (1 / 2)) else out_cm)"
proof -
  obtain g w1 where c1: "canStartShot d w = Some (g, w1)"
    using r by (cases "canStartShot d w") (auto simp: read_polling_def)
  show thesis
  proof (cases "g = HCSR04_OK")
    case False
    with canStartShot_status [OF c1] have b: "canStartShot d w = Some (HCSR04_ERR_BUSY, w1)"
      using c1 by simp
    from r [unfolded read_polling_denied [OF b]] b show thesis by (auto intro: denied)
  next
    case True
    with c1 have c1: "canStartShot d w = Some (HCSR04_OK, w1)" by simp
    obtain d1 w2 where c2: "markShotStart d w1 = Some (d1, w2)"
      using r c1 by (cases "markShotStart d w1") (auto simp: read_polling_def)
    from markShotStart_Some [OF c2] have p: "m_trig_pin d1 = m_trig_pin d" by auto
    obtain t_start_us w4 where c3: "micros (trigPulse (m_trig_pin d) w2) = Some (t_start_us, w4)"
      using r c1 c2 p by (cases "micros (trigPulse (m_trig_pin d) w2)") (auto simp: read_polling_def)
    obtain now_us w5 where c4: "micros w4 = Some (now_us, w5)"
      using r c1 c2 c3 p by (cases "micros w4") (auto simp: read_polling_def)
    note g = read_polling_granted [OF c1 c2 c3 c4, of out_cm]
    obtain t_rise_us w6 where
      c5: "wait_echo HIGH (m_echo_pin d) t_start_us (m_timeout_us d) now_us 0 w5 = Some (t_rise_us, w6)"
      using r [unfolded g]
      by (cases "wait_echo HIGH (m_echo_pin d) t_start_us (m_timeout_us d) now_us 0 w5") auto
    show thesis
    proof (cases "t_rise_us = 0")
      case True
      with r [unfolded g] c5 show thesis
        by (auto intro: no_rise [OF c1 _ c3 c4] simp: c2)
    next
      case nz: False
      obtain now_us' w7 where c6: "micros w6 = Some (now_us', w7)"
        using r [unfolded g] c5 nz by (cases "micros w6") auto
      obtain t_fall_us w8 where
        c7: "wait_echo LOW (m_echo_pin d) t_start_us (m_timeout_us d) now_us' 0 w7 = Some (t_fall_us, w8)"
        using r [unfolded g] c5 nz c6
        by (cases "wait_echo LOW (m_echo_pin d) t_start_us (m_timeout_us d) now_us' 0 w7") auto
      show thesis
      proof (cases "t_fall_us = 0")
        case True
        with r [unfolded g] c5 nz c6 c7 show thesis
          by (auto intro: no_fall [OF c1 _ c3 c4 c5 nz c6] simp: c2)
      next
        case False
        with r [unfolded g] c5 nz c6 c7 have
          e: "d' = d1" "w' = w8"
          "st = (if t_fall_us \<noteq> t_rise_us then HCSR04_OK else HCSR04_ERR_BAD_PARAM)"
          "out_cm' = (if t_fall_us \<noteq> t_rise_us
                  then fmul (fmul (float_of_ulong (t_fall_us - t_rise_us)) (m_cm_per_us d)) (float_literal (1 / 2)) else out_cm)"
          by (auto split: if_splits)
        show thesis
          by (rule measured [OF c1 c2 [folded e(1)] c3 c4 c5 nz c6 c7 [folded e(2)] False e(3) e(4)])
      qed
    qed
  qed
qed

lemma read_interrupt_denied:
  assumes "canStartShot d w = Some (HCSR04_ERR_BUSY, w1)"
  shows "read_interrupt d out_cm w =
     Some (if s_rise_us d \<noteq> 0 \<and> s_fall_us d \<noteq> 0
           then (if s_fall_us d \<noteq> s_rise_us d
                 then (HCSR04_OK, fmul (fmul (float_of_ulong (s_fall_us d - s_rise_us d)) (m_cm_per_us d)) (float_literal (1 / 2)),
                       d\<lparr>s_rise_us := 0, s_fall_us := 0\<rparr>, w1)
                 else (HCSR04_ERR_BAD_PARAM, out_cm, d\<lparr>s_rise_us := 0, s_fall_us := 0\<rparr>, w1))
           else (HCSR04_ERR_NOT_READY, out_cm, d, w1))"
proof -
  have r: "read_interrupt d out_cm w =
      (if s_rise_us d \<noteq> 0 \<and> s_fall_us d \<noteq> 0 then
            (let echo_high_us = s_fall_us d - s_rise_us d;
                 (status', tmp_cm) = timeUsToCm d echo_high_us (float_literal 0)
             in Some (status', if status' = HCSR04_OK then tmp_cm else out_cm,
                      d\<lparr>s_rise_us := 0, s_fall_us := 0\<rparr>, w1))
          else Some (HCSR04_ERR_NOT_READY, out_cm, d, w1))"
    unfolding read_interrupt_def assms by simp
  show ?thesis
  proof (cases "s_rise_us d \<noteq> 0 \<and> s_fall_us d \<noteq> 0")
    case False
    then show ?thesis unfolding r by auto
  next
    case True
    show ?thesis
    proof (cases "s_fall_us d = s_rise_us d")
      case True
      with \<open>s_rise_us d \<noteq> 0 \<and> s_fall_us d \<noteq> 0\<close> show ?thesis
        unfolding r by (simp add: timeUsToCm_cases)
    next
      case False
      with True show ?thesis
        unfolding r by (simp add: timeUsToCm_cases)
    qed
  qed
qed

lemma read_interrupt_granted:
  assumes "canStartShot d w = Some (HCSR04_OK, w1)" and "markShotStart d w1 = Some (d1, w2)"
  shows "read_interrupt d out_cm w =
     Some (HCSR04_ERR_NOT_READY, out_cm,
           d1\<lparr>s_waiting_rise := True, s_rise_us := 0, s_fall_us := 0\<rparr>,
           trigPulse (m_trig_pin d) w2)"
proof -
  from markShotStart_Some [OF assms(2)] have "m_trig_pin d1 = m_trig_pin d" by auto
  with assms show ?thesis by (simp add: read_interrupt_def)
qed

lemma read_interrupt_Some:
  assumes "read_interrupt d out_cm w = Some (st, out_cm', d', w')"
  shows "(\<exists>w1. canStartShot d w = Some (HCSR04_ERR_BUSY, w1)) \<or>
         (\<exists>w1 d1 w2. canStartShot d w = Some (HCSR04_OK, w1) \<and> markShotStart d w1 = Some (d1, w2))"
proof -
  from assms obtain g w1 where g: "canStartShot d w = Some (g, w1)"
    by (auto simp: read_interrupt_def bind_eq_Some_conv)
  show ?thesis
  proof (cases "g = HCSR04_OK")
    case False
    with canStartShot_status [OF g] g show ?thesis by auto
  next
    case True
    with g assms obtain d1 w2 where "markShotStart d w1 = Some (d1, w2)"
      by (auto simp: read_interrupt_def bind_eq_Some_conv)
    with g True show ?thesis by auto
  qed
qed

lemma read_interrupt_status:
  assumes "read_interrupt d out_cm w = Some (st, out_cm', d', w')"
  shows "st = HCSR04_OK \<or> st = HCSR04_ERR_BAD_PARAM \<or> st = HCSR04_ERR_NOT_READY"
proof -
  from read_interrupt_Some [OF assms]
  consider (denied) w1 where "canStartShot d w = Some (HCSR04_ERR_BUSY, w1)"
    | (granted) w1 d1 w2 where "canStartShot d w = Some (HCSR04_OK, w1)"
        and "markShotStart d w1 = Some (d1, w2)"
    by blast
  then show ?thesis
  proof cases
    case denied
    from assms [unfolded read_interrupt_denied [OF denied]] show ?thesis
      by (simp split: if_splits)
  next
    case granted
    from assms [unfolded read_interrupt_granted [OF granted]] show ?thesis by simp
  qed
qed

lemma read_interrupt_unpopulated:
  assumes "read_interrupt d out_cm w = Some (st, out_cm', d', w')"
    and "s_rise_us d = 0 \<or> s_fall_us d = 0"
  shows "st = HCSR04_ERR_NOT_READY \<and> out_cm' = out_cm \<and> (s_rise_us d' = 0 \<or> s_fall_us d' = 0)"
proof -
  from read_interrupt_Some [OF assms(1)]
  consider (denied) w1 where "canStartShot d w = Some (HCSR04_ERR_BUSY, w1)"
    | (granted) w1 d1 w2 where "canStartShot d w = Some (HCSR04_OK, w1)"
        and "markShotStart d w1 = Some (d1, w2)"
    by blast
  then show ?thesis
  proof cases
    case denied
    from assms(1) [unfolded read_interrupt_denied [OF denied]] assms(2) show ?thesis
      by (auto split: if_splits)
  next
    case granted
    from assms(1) [unfolded read_interrupt_granted [OF granted]] show ?thesis by auto
  qed
qed

lemma read_interrupt_returns:
  assumes "2 \<le> length (clock_in w)"
  shows "\<exists>r. read_interrupt d out_cm w = Some r"
proof -
  from assms obtain a b rest where c: "clock_in w = a # b # rest"
    by (cases "clock_in w"; cases "tl (clock_in w)") auto
  have c': "clock_in (w\<lparr>clock_in := b # rest\<rparr>) = b # rest" by simp
  show ?thesis
  proof (cases "m_min_cycle_us d \<le> a - m_last_shot_us d")
    case True
    then have "canStartShot d w = Some (HCSR04_OK, w\<lparr>clock_in := b # rest\<rparr>)"
      by (simp add: canStartShot_Cons [OF c])
    from read_interrupt_granted [OF this markShotStart_Cons [OF c']] show ?thesis by blast
  next
    case False
    then have "canStartShot d w = Some (HCSR04_ERR_BUSY, w\<lparr>clock_in := b # rest\<rparr>)"
      by (simp add: canStartShot_Cons [OF c])
    from read_interrupt_denied [OF this] show ?thesis by blast
  qed
qed


subsection \<open>Cycle guard\<close>

text \<open>
  C4. \<^verbatim>\<open>canStartShot_\<close> returns OK if and only if the elapsed time, current clock minus
  last-shot timestamp taken modulo \<open>2 ^ 32\<close>, is at least the minimum cycle interval,
  and Busy otherwise. Hence, whenever the clock is a true elapsed time \<open>e < 2 ^ 32\<close>
  past the last shot, wrapped or not, the answer is OK exactly when \<open>e\<close> reaches the
  interval; and with a nonzero interval, a guard asked at the very clock value that
  \<^verbatim>\<open>markShotStart_\<close> recorded answers Busy.
\<close>

theorem canStartShot_wraparound:
  "(clock_in w = now_us # rest \<longrightarrow>
      canStartShot d w =
        Some (if unat (m_min_cycle_us d) \<le> (unat now_us + 2 ^ 32 - unat (m_last_shot_us d)) mod 2 ^ 32
              then HCSR04_OK else HCSR04_ERR_BUSY,
              w\<lparr>clock_in := rest\<rparr>)) \<and>
   (clock_in w = now_us # rest \<and> e < 2 ^ 32 \<and> now_us = m_last_shot_us d + of_nat e \<longrightarrow>
      canStartShot d w =
        Some (if unat (m_min_cycle_us d) \<le> e then HCSR04_OK else HCSR04_ERR_BUSY,
              w\<lparr>clock_in := rest\<rparr>)) \<and>
   (clock_in w = now_us # now_us # rest \<and> m_min_cycle_us d \<noteq> 0 \<longrightarrow>
      markShotStart d w \<bind> (\<lambda>(d1, w1). canStartShot d1 w1) =
        Some (HCSR04_ERR_BUSY, w\<lparr>clock_in := rest\<rparr>))"
proof (intro conjI impI)
  assume c: "clock_in w = now_us # rest"
  show "canStartShot d w =
        Some (if unat (m_min_cycle_us d) \<le> (unat now_us + 2 ^ 32 - unat (m_last_shot_us d)) mod 2 ^ 32
              then HCSR04_OK else HCSR04_ERR_BUSY,
              w\<lparr>clock_in := rest\<rparr>)"
    unfolding canStartShot_Cons [OF c] word_le_nat_alt unat_sub_wrap ..
next
  assume a: "clock_in w = now_us # rest \<and> e < 2 ^ 32 \<and> now_us = m_last_shot_us d + of_nat e"
  then have c: "clock_in w = now_us # rest" and e: "e < 2 ^ 32"
    and n: "now_us = m_last_shot_us d + of_nat e" by simp_all
  have "unat (now_us - m_last_shot_us d) = e"
    unfolding n by (rule unat_elapsed [OF e])
  then show "canStartShot d w =
        Some (if unat (m_min_cycle_us d) \<le> e then HCSR04_OK else HCSR04_ERR_BUSY,
              w\<lparr>clock_in := rest\<rparr>)"
    unfolding canStartShot_Cons [OF c] word_le_nat_alt by simp
next
  assume a: "clock_in w = now_us # now_us # rest \<and> m_min_cycle_us d \<noteq> 0"
  then have c: "clock_in w = now_us # now_us # rest" and m: "m_min_cycle_us d \<noteq> 0" by simp_all
  have c': "clock_in (w\<lparr>clock_in := now_us # rest\<rparr>) = now_us # rest" by simp
  have z: "\<not> m_min_cycle_us d \<le> 0" using m by (simp add: word_le_nat_alt unat_gt_0 [symmetric] del: unat_gt_0)
  show "markShotStart d w \<bind> (\<lambda>(d1, w1). canStartShot d1 w1) =
        Some (HCSR04_ERR_BUSY, w\<lparr>clock_in := rest\<rparr>)"
    unfolding markShotStart_Cons [OF c] using z by (simp add: canStartShot_Cons [OF c'])
qed

theorem canStartShot_wraparound_witness:
  "canStartShot (IHCSR04_ctor 9 8 30000 HCSR04_CM_PER_US 60000\<lparr>m_last_shot_us := 4294967286\<rparr>)
     \<lparr>clock_in = [5], level_in = [], io_log = []\<rparr>
     = Some (HCSR04_ERR_BUSY, \<lparr>clock_in = [], level_in = [], io_log = []\<rparr>) \<and>
   canStartShot (IHCSR04_ctor 9 8 30000 HCSR04_CM_PER_US 60000\<lparr>m_last_shot_us := 4294967286\<rparr>)
     \<lparr>clock_in = [59990], level_in = [], io_log = []\<rparr>
     = Some (HCSR04_OK, \<lparr>clock_in = [], level_in = [], io_log = []\<rparr>) \<and>
   markShotStart (IHCSR04_ctor 9 8 30000 HCSR04_CM_PER_US 60000) \<lparr>clock_in = [70000, 70000], level_in = [], io_log = []\<rparr>
      \<bind> (\<lambda>(d1, w1). canStartShot d1 w1)
     = Some (HCSR04_ERR_BUSY, \<lparr>clock_in = [], level_in = [], io_log = []\<rparr>)"
  using canStartShot_wraparound [of "\<lparr>clock_in = [5], level_in = [], io_log = []\<rparr>" 5 "[]"
          "IHCSR04_ctor 9 8 30000 HCSR04_CM_PER_US 60000\<lparr>m_last_shot_us := 4294967286\<rparr>" 15]
        canStartShot_wraparound [of "\<lparr>clock_in = [59990], level_in = [], io_log = []\<rparr>" 59990 "[]"
          "IHCSR04_ctor 9 8 30000 HCSR04_CM_PER_US 60000\<lparr>m_last_shot_us := 4294967286\<rparr>" 60000]
        canStartShot_wraparound [of "\<lparr>clock_in = [70000, 70000], level_in = [], io_log = []\<rparr>" 70000 "[]"
          "IHCSR04_ctor 9 8 30000 HCSR04_CM_PER_US 60000" 0]
  by (simp add: IHCSR04_ctor_def)

subsection \<open>Configuration setters and distance conversion\<close>

text \<open>
  C8. Each numeric setter commits its argument and returns OK exactly when the argument is
  valid, and otherwise returns Bad-param and leaves the object as it was:
  \<^verbatim>\<open>setTimeoutUs\<close> accepts exactly the values of at least the trigger pulse width plus
  100 (so that value is accepted and the one below it is refused), \<^verbatim>\<open>setMinCycleUs\<close>
  exactly the nonzero values, \<^verbatim>\<open>setSoundSpeed\<close> exactly the floats strictly between the
  floats \<^verbatim>\<open>0.02F\<close> and \<^verbatim>\<open>0.06F\<close>: both endpoints are refused, their neighbours inside
  the interval are accepted, and so is no NaN, infinity or zero.
\<close>

theorem setters_commit_iff_valid:
  "setTimeoutUs d t =
     (if HCSR04_TRIG_PULSE_US + 100 \<le> unat t then (HCSR04_OK, d\<lparr>m_timeout_us := t\<rparr>)
      else (HCSR04_ERR_BAD_PARAM, d)) \<and>
   setTimeoutUs d (of_nat (HCSR04_TRIG_PULSE_US + 100)) =
     (HCSR04_OK, d\<lparr>m_timeout_us := of_nat (HCSR04_TRIG_PULSE_US + 100)\<rparr>) \<and>
   setTimeoutUs d (of_nat (HCSR04_TRIG_PULSE_US + 99)) = (HCSR04_ERR_BAD_PARAM, d) \<and>
   setMinCycleUs d c =
     (if 0 < unat c then (HCSR04_OK, d\<lparr>m_min_cycle_us := c\<rparr>)
      else (HCSR04_ERR_BAD_PARAM, d)) \<and>
   setSoundSpeed d v =
     (if flt (float_literal (2 / 100)) v \<and> flt v (float_literal (6 / 100))
      then (HCSR04_OK, d\<lparr>m_cm_per_us := v\<rparr>)
      else (HCSR04_ERR_BAD_PARAM, d)) \<and>
   setSoundSpeed d (Fin a) =
     (if 5368709 / 268435456 < a \<and> a < 16106127 / 268435456
      then (HCSR04_OK, d\<lparr>m_cm_per_us := Fin a\<rparr>)
      else (HCSR04_ERR_BAD_PARAM, d)) \<and>
   setSoundSpeed d (float_literal (2 / 100)) = (HCSR04_ERR_BAD_PARAM, d) \<and>
   setSoundSpeed d (float_literal (6 / 100)) = (HCSR04_ERR_BAD_PARAM, d) \<and>
   setSoundSpeed d (Fin (10737419 / 536870912)) =
     (HCSR04_OK, d\<lparr>m_cm_per_us := Fin (10737419 / 536870912)\<rparr>) \<and>
   setSoundSpeed d (Fin (16106126 / 268435456)) =
     (HCSR04_OK, d\<lparr>m_cm_per_us := Fin (16106126 / 268435456)\<rparr>) \<and>
   setSoundSpeed d NaN = (HCSR04_ERR_BAD_PARAM, d) \<and>
   setSoundSpeed d PInf = (HCSR04_ERR_BAD_PARAM, d) \<and>
   setSoundSpeed d NInf = (HCSR04_ERR_BAD_PARAM, d) \<and>
   setSoundSpeed d NegZero = (HCSR04_ERR_BAD_PARAM, d)"
proof -
  have "(110 :: 32 word) \<le> t \<longleftrightarrow> 110 \<le> unat t"
    by (simp add: word_le_nat_alt)
  then have t: "setTimeoutUs d t =
     (if HCSR04_TRIG_PULSE_US + 100 \<le> unat t then (HCSR04_OK, d\<lparr>m_timeout_us := t\<rparr>)
      else (HCSR04_ERR_BAD_PARAM, d))"
    by (simp add: setTimeoutUs_def HCSR04_TRIG_PULSE_US_def)
  have t1: "setTimeoutUs d (of_nat (HCSR04_TRIG_PULSE_US + 100)) =
     (HCSR04_OK, d\<lparr>m_timeout_us := of_nat (HCSR04_TRIG_PULSE_US + 100)\<rparr>)"
    by (simp add: setTimeoutUs_def HCSR04_TRIG_PULSE_US_def)
  have t2: "setTimeoutUs d (of_nat (HCSR04_TRIG_PULSE_US + 99)) = (HCSR04_ERR_BAD_PARAM, d)"
    by (simp add: setTimeoutUs_def HCSR04_TRIG_PULSE_US_def)
  have c: "setMinCycleUs d c =
     (if 0 < unat c then (HCSR04_OK, d\<lparr>m_min_cycle_us := c\<rparr>)
      else (HCSR04_ERR_BAD_PARAM, d))"
    by (simp add: setMinCycleUs_def unat_gt_0)
  have v: "setSoundSpeed d v =
     (if flt (float_literal (2 / 100)) v \<and> flt v (float_literal (6 / 100))
      then (HCSR04_OK, d\<lparr>m_cm_per_us := v\<rparr>)
      else (HCSR04_ERR_BAD_PARAM, d))" for v
    by (simp add: setSoundSpeed_def fgt_def)
  have a: "setSoundSpeed d (Fin a) =
     (if 5368709 / 268435456 < a \<and> a < 16106127 / 268435456
      then (HCSR04_OK, d\<lparr>m_cm_per_us := Fin a\<rparr>)
      else (HCSR04_ERR_BAD_PARAM, d))" for a
    unfolding v float_literal_0_02 float_literal_0_06 by simp
  have e1: "setSoundSpeed d (float_literal (2 / 100)) = (HCSR04_ERR_BAD_PARAM, d)"
    unfolding v float_literal_0_02 float_literal_0_06 by simp
  have e2: "setSoundSpeed d (float_literal (6 / 100)) = (HCSR04_ERR_BAD_PARAM, d)"
    unfolding v float_literal_0_02 float_literal_0_06 by simp
  have n1: "setSoundSpeed d (Fin (10737419 / 536870912)) =
     (HCSR04_OK, d\<lparr>m_cm_per_us := Fin (10737419 / 536870912)\<rparr>)"
    unfolding a by simp
  have n2: "setSoundSpeed d (Fin (16106126 / 268435456)) =
     (HCSR04_OK, d\<lparr>m_cm_per_us := Fin (16106126 / 268435456)\<rparr>)"
    unfolding a by simp
  have s: "setSoundSpeed d NaN = (HCSR04_ERR_BAD_PARAM, d)"
    "setSoundSpeed d PInf = (HCSR04_ERR_BAD_PARAM, d)"
    "setSoundSpeed d NInf = (HCSR04_ERR_BAD_PARAM, d)"
    "setSoundSpeed d NegZero = (HCSR04_ERR_BAD_PARAM, d)"
    unfolding v float_literal_0_02 float_literal_0_06 by simp_all
  from t t1 t2 c v [of v] a [of a] e1 e2 n1 n2 s show ?thesis by (intro conjI)
qed

text \<open>
  C6. \<^verbatim>\<open>timeUsToCm_\<close> is a function of the object and its arguments alone. For every
  strictly positive high time it returns OK and writes the high time multiplied by the
  speed of sound and divided by two, in the single-precision arithmetic of the platform
  (the code halves by multiplying with \<^verbatim>\<open>0.5F\<close>, which gives the same float as the
  division); for zero it returns Bad-param and the referenced variable keeps its content.
\<close>

theorem timeUsToCm_distance:
  "(0 < unat echo_high_us \<longrightarrow>
      timeUsToCm d echo_high_us out_cm =
        (HCSR04_OK, timeToDistance echo_high_us (m_cm_per_us d))) \<and>
   timeUsToCm d 0 out_cm = (HCSR04_ERR_BAD_PARAM, out_cm)"
proof (intro conjI impI)
  assume "0 < unat echo_high_us"
  then have nz: "echo_high_us \<noteq> 0" by (simp add: unat_gt_0)
  have "fmul (fmul (float_of_ulong echo_high_us) (m_cm_per_us d)) (float_literal (1 / 2)) =
        timeToDistance echo_high_us (m_cm_per_us d)"
    unfolding timeToDistance_def by (rule fmul_half_fdiv_two)
  with nz show "timeUsToCm d echo_high_us out_cm =
        (HCSR04_OK, timeToDistance echo_high_us (m_cm_per_us d))"
    by (simp add: timeUsToCm_def)
next
  show "timeUsToCm d 0 out_cm = (HCSR04_ERR_BAD_PARAM, out_cm)"
    by (simp add: timeUsToCm_def)
qed

theorem timeUsToCm_distance_witness:
  "0 < unat (600 :: ulong) \<and>
   timeUsToCm (IHCSR04_ctor 9 8 30000 HCSR04_CM_PER_US 60000) 600 (Fin 0)
     = (HCSR04_OK, Fin (10789847 / 1048576)) \<and>
   timeToDistance 600 HCSR04_CM_PER_US = Fin (10789847 / 1048576) \<and>
   0 < unat (16777217 :: ulong) \<and>
   timeUsToCm (IHCSR04_ctor 9 8 30000 (Fin (1 / 32)) 60000) 16777217 (Fin 0)
     = (HCSR04_OK, Fin 262144)"
proof -
  have h: "timeUsToCm (IHCSR04_ctor 9 8 30000 HCSR04_CM_PER_US 60000) 600 (Fin 0)
     = (HCSR04_OK, Fin (10789847 / 1048576))"
    by (simp add: timeUsToCm_def IHCSR04_ctor_def distance_600_us)
  have g: "timeUsToCm (IHCSR04_ctor 9 8 30000 (Fin (1 / 32)) 60000) 16777217 (Fin 0)
     = (HCSR04_OK, Fin 262144)"
    by (simp add: timeUsToCm_def IHCSR04_ctor_def float_of_ulong_def float_literal_half fmul_def
          is_nan_def is_inf_def is_zero_def fround_eval)
  from timeUsToCm_distance [of 600 "IHCSR04_ctor 9 8 30000 HCSR04_CM_PER_US 60000" "Fin 0"] h
  have "timeToDistance 600 HCSR04_CM_PER_US = Fin (10789847 / 1048576)"
    by (simp add: IHCSR04_ctor_def)
  with h g show ?thesis by simp
qed

subsection \<open>A read that the cycle guard denies\<close>

text \<open>
  C1, as stated, fails on the status: a polling \<^verbatim>\<open>read\<close> called 100 us after the start
  of the clock, on a fresh object with the default interval of 60000 us, is denied by the
  guard (which answers Busy) and returns Bad-state, not Busy.
\<close>
theorem read_polling_guard_denied_counterexample:
  "canStartShot (IHCSR04_ctor 9 8 30000 HCSR04_CM_PER_US 60000)
     \<lparr>clock_in = [100], level_in = [], io_log = []\<rparr>
     = Some (HCSR04_ERR_BUSY, \<lparr>clock_in = [], level_in = [], io_log = []\<rparr>) \<and>
   read_polling (IHCSR04_ctor 9 8 30000 HCSR04_CM_PER_US 60000) (Fin 0)
     \<lparr>clock_in = [100], level_in = [], io_log = []\<rparr>
     = Some (HCSR04_ERR_BAD_STATE, Fin 0, IHCSR04_ctor 9 8 30000 HCSR04_CM_PER_US 60000,
             \<lparr>clock_in = [], level_in = [], io_log = []\<rparr>) \<and>
   HCSR04_ERR_BAD_STATE \<noteq> HCSR04_ERR_BUSY"
  by (simp add: read_polling_def canStartShot_def micros_def IHCSR04_ctor_def)

text \<open>
  C1, as the code has it. Whenever the polling \<^verbatim>\<open>read\<close> is called before the minimum
  cycle interval has elapsed since the last shot start, it returns Bad-state (the value
  its status variable starts with), does not touch the trigger line nor any other pin,
  and leaves the object, the last-shot timestamp included, and the caller's distance
  unchanged: the one clock reading of the guard is all that happened.
\<close>
theorem read_polling_guard_denied:
  assumes "clock_in w = now_us # rest"
    and "now_us - m_last_shot_us d < m_min_cycle_us d"
  shows "read_polling d out_cm w = Some (HCSR04_ERR_BAD_STATE, out_cm, d, w\<lparr>clock_in := rest\<rparr>) \<and>
         io_log (w\<lparr>clock_in := rest\<rparr>) = io_log w \<and>
         level_in (w\<lparr>clock_in := rest\<rparr>) = level_in w"
proof -
  from assms(2) have "\<not> m_min_cycle_us d \<le> now_us - m_last_shot_us d" by simp
  then have "canStartShot d w = Some (HCSR04_ERR_BUSY, w\<lparr>clock_in := rest\<rparr>)"
    by (simp add: canStartShot_Cons [OF assms(1)])
  from read_polling_denied [OF this] show ?thesis by simp
qed

theorem read_polling_guard_denied_witness:
  "read_polling (IHCSR04_ctor 9 8 30000 HCSR04_CM_PER_US 60000\<lparr>m_last_shot_us := 4294967286\<rparr>) (Fin 7)
     \<lparr>clock_in = [5, 6], level_in = [HIGH], io_log = [DigitalWrite 9 LOW]\<rparr>
   = Some (HCSR04_ERR_BAD_STATE, Fin 7,
           IHCSR04_ctor 9 8 30000 HCSR04_CM_PER_US 60000\<lparr>m_last_shot_us := 4294967286\<rparr>,
           \<lparr>clock_in = [6], level_in = [HIGH], io_log = [DigitalWrite 9 LOW]\<rparr>)"
  using read_polling_guard_denied [of "\<lparr>clock_in = [5, 6], level_in = [HIGH], io_log = [DigitalWrite 9 LOW]\<rparr>"
          5 "[6]" "IHCSR04_ctor 9 8 30000 HCSR04_CM_PER_US 60000\<lparr>m_last_shot_us := 4294967286\<rparr>" "Fin 7"]
  by (simp add: IHCSR04_ctor_def)

text \<open>
  C7, as stated, fails on the status of the harvest: with the guard denying and both
  timestamps populated with the same clock value (a pulse shorter than the clock's
  resolution), the interrupt \<^verbatim>\<open>read\<close> harvests a high time of zero and returns
  Bad-param, not OK.
\<close>
theorem read_interrupt_guard_denied_counterexample:
  "canStartShot (HCSR04_Interrupt_ctor 9 2 30000 HCSR04_CM_PER_US 60000
       \<lparr>m_last_shot_us := 60004, s_rise_us := 60500, s_fall_us := 60500\<rparr>)
     \<lparr>clock_in = [60600], level_in = [], io_log = []\<rparr>
     = Some (HCSR04_ERR_BUSY, \<lparr>clock_in = [], level_in = [], io_log = []\<rparr>) \<and>
   read_interrupt (HCSR04_Interrupt_ctor 9 2 30000 HCSR04_CM_PER_US 60000
       \<lparr>m_last_shot_us := 60004, s_rise_us := 60500, s_fall_us := 60500\<rparr>) (Fin 0)
     \<lparr>clock_in = [60600], level_in = [], io_log = []\<rparr>
     = Some (HCSR04_ERR_BAD_PARAM, Fin 0,
             HCSR04_Interrupt_ctor 9 2 30000 HCSR04_CM_PER_US 60000\<lparr>m_last_shot_us := 60004\<rparr>,
             \<lparr>clock_in = [], level_in = [], io_log = []\<rparr>) \<and>
   HCSR04_ERR_BAD_PARAM \<noteq> HCSR04_OK"
  by (simp add: read_interrupt_def canStartShot_def micros_def HCSR04_Interrupt_ctor_def timeUsToCm_def)

text \<open>
  C7, as the code has it. When the guard denies a call of the interrupt \<^verbatim>\<open>read\<close>, no
  shot is armed: nothing is written to any pin, the last-shot timestamp and the
  awaiting-rise flag stay as they are, and the timestamps are not reset. The call still
  harvests: when both timestamps are populated it clears them and returns OK with the
  distance of their difference if that difference is nonzero, Bad-param without a distance
  if it is zero; when they are not both populated it returns Not-ready and changes nothing.
\<close>
theorem read_interrupt_guard_denied:
  assumes "clock_in w = now_us # rest"
    and "now_us - m_last_shot_us d < m_min_cycle_us d"
  shows "read_interrupt d out_cm w =
           Some (if s_rise_us d \<noteq> 0 \<and> s_fall_us d \<noteq> 0
                 then (if s_fall_us d \<noteq> s_rise_us d
                       then (HCSR04_OK, fmul (fmul (float_of_ulong (s_fall_us d - s_rise_us d)) (m_cm_per_us d)) (float_literal (1 / 2)),
                             d\<lparr>s_rise_us := 0, s_fall_us := 0\<rparr>, w\<lparr>clock_in := rest\<rparr>)
                       else (HCSR04_ERR_BAD_PARAM, out_cm,
                             d\<lparr>s_rise_us := 0, s_fall_us := 0\<rparr>, w\<lparr>clock_in := rest\<rparr>))
                 else (HCSR04_ERR_NOT_READY, out_cm, d, w\<lparr>clock_in := rest\<rparr>)) \<and>
         io_log (w\<lparr>clock_in := rest\<rparr>) = io_log w \<and>
         m_last_shot_us (d\<lparr>s_rise_us := 0, s_fall_us := 0\<rparr>) = m_last_shot_us d \<and>
         s_waiting_rise (d\<lparr>s_rise_us := 0, s_fall_us := 0\<rparr>) = s_waiting_rise d"
proof -
  from assms(2) have "\<not> m_min_cycle_us d \<le> now_us - m_last_shot_us d" by simp
  then have "canStartShot d w = Some (HCSR04_ERR_BUSY, w\<lparr>clock_in := rest\<rparr>)"
    by (simp add: canStartShot_Cons [OF assms(1)])
  from read_interrupt_denied [OF this, of out_cm] show ?thesis by simp
qed

theorem read_interrupt_guard_denied_witness:
  "read_interrupt (HCSR04_Interrupt_ctor 9 2 30000 HCSR04_CM_PER_US 60000
       \<lparr>m_last_shot_us := 60004, s_rise_us := 60500, s_fall_us := 61100\<rparr>) (Fin 0)
     \<lparr>clock_in = [70000], level_in = [], io_log = []\<rparr>
     = Some (HCSR04_OK, Fin (10789847 / 1048576),
             HCSR04_Interrupt_ctor 9 2 30000 HCSR04_CM_PER_US 60000\<lparr>m_last_shot_us := 60004\<rparr>,
             \<lparr>clock_in = [], level_in = [], io_log = []\<rparr>)"
  using read_interrupt_guard_denied [of "\<lparr>clock_in = [70000], level_in = [], io_log = []\<rparr>" 70000 "[]"
      "HCSR04_Interrupt_ctor 9 2 30000 HCSR04_CM_PER_US 60000
         \<lparr>m_last_shot_us := 60004, s_rise_us := 60500, s_fall_us := 61100\<rparr>" "Fin 0"]
  by (simp add: HCSR04_Interrupt_ctor_def distance_600_us)

subsection \<open>The interrupt engine: a result is consumed once, and no timeout is ever reported\<close>

lemma read_interrupt_clock:
  assumes "read_interrupt d out_cm w = Some (st, out_cm', d', w')"
  shows "length (clock_in w) \<le> length (clock_in w') + 2"
proof -
  from read_interrupt_Some [OF assms]
  consider (denied) w1 where "canStartShot d w = Some (HCSR04_ERR_BUSY, w1)"
    | (granted) w1 d1 w2 where "canStartShot d w = Some (HCSR04_OK, w1)"
        and "markShotStart d w1 = Some (d1, w2)"
    by blast
  then show ?thesis
  proof cases
    case denied
    from assms [unfolded read_interrupt_denied [OF denied]] have "w' = w1"
      by (simp split: if_splits)
    with canStartShot_world [OF denied] show ?thesis
      by (metis le_add2 le_trans length_Cons le_SucI le_refl add_2_eq_Suc')
  next
    case granted
    from assms [unfolded read_interrupt_granted [OF granted]]
    have w': "w' = trigPulse (m_trig_pin d) w2" by simp
    have c: "clock_in w' = clock_in w2"
      by (simp add: w' trigPulse_def digitalWrite_def delayMicroseconds_def emit_def)
    from markShotStart_Some [OF granted(2)] obtain t where "micros w1 = Some (t, w2)" by blast
    from micros_Some [OF this] have "length (clock_in w1) = Suc (length (clock_in w2))"
      by (metis length_Cons)
    moreover from canStartShot_world [OF granted(1)] have "length (clock_in w) = Suc (length (clock_in w1))"
      by (metis length_Cons)
    ultimately show ?thesis using c by simp
  qed
qed

lemma run_reads_unpopulated:
  "s_rise_us d = 0 \<or> s_fall_us d = 0 \<Longrightarrow>
   run_interrupt (replicate n CallRead) d out_cm w = Some (sts, out_cm', d', w') \<Longrightarrow>
   sts = replicate n HCSR04_ERR_NOT_READY \<and> out_cm' = out_cm"
proof (induction n arbitrary: d out_cm w sts)
  case 0
  then show ?case by simp
next
  case (Suc n)
  from Suc.prems(2) obtain st out1 d1 w1 sts1 where
    r: "read_interrupt d out_cm w = Some (st, out1, d1, w1)"
    and rest: "run_interrupt (replicate n CallRead) d1 out1 w1 = Some (sts1, out_cm', d', w')"
    and sts: "sts = st # sts1"
    by (auto split: option.splits)
  from read_interrupt_unpopulated [OF r Suc.prems(1)]
  have st: "st = HCSR04_ERR_NOT_READY" and o: "out1 = out_cm"
    and u: "s_rise_us d1 = 0 \<or> s_fall_us d1 = 0" by simp_all
  from Suc.IH [OF u rest] st o sts show ?case by simp
qed

lemma run_reads_returns:
  "2 * n \<le> length (clock_in w) \<Longrightarrow> \<exists>r. run_interrupt (replicate n CallRead) d out_cm w = Some r"
proof (induction n arbitrary: d out_cm w)
  case 0
  then show ?case by simp
next
  case (Suc n)
  then have "2 \<le> length (clock_in w)" by simp
  from read_interrupt_returns [OF this] obtain st out1 d1 w1 where
    r: "read_interrupt d out_cm w = Some (st, out1, d1, w1)"
    by (metis prod_cases4)
  from read_interrupt_clock [OF r] Suc.prems have "2 * n \<le> length (clock_in w1)" by simp
  from Suc.IH [OF this] obtain r' where "run_interrupt (replicate n CallRead) d1 out1 w1 = Some r'"
    by blast
  with r show ?case by (cases r') simp
qed

lemma run_interrupt_statuses:
  "run_interrupt ss d out_cm w = Some (sts, out_cm', d', w') \<Longrightarrow>
   set sts \<subseteq> {HCSR04_OK, HCSR04_ERR_BAD_PARAM, HCSR04_ERR_NOT_READY}"
proof (induction ss arbitrary: d out_cm w sts)
  case Nil
  then show ?case by simp
next
  case (Cons s ss)
  show ?case
  proof (cases s)
    case CallRead
    with Cons.prems obtain st out1 d1 w1 sts1 where
      r: "read_interrupt d out_cm w = Some (st, out1, d1, w1)"
      and rest: "run_interrupt ss d1 out1 w1 = Some (sts1, out_cm', d', w')"
      and sts: "sts = st # sts1"
      by (auto split: option.splits)
    from read_interrupt_status [OF r] Cons.IH [OF rest] sts show ?thesis by auto
  next
    case FireISR
    with Cons.prems obtain d1 w1 where
      "run_interrupt ss d1 out_cm w1 = Some (sts, out_cm', d', w')"
      by (auto split: option.splits)
    from Cons.IH [OF this] show ?thesis .
  qed
qed

text \<open>
  An edge captured while the clock reads 0 is stored as the timestamp 0, the value that
  stands for "not captured": after a complete pulse whose rise falls on the wrap of the
  clock, \<^verbatim>\<open>read\<close> answers Not-ready. Below, populated means what the code tests: the
  stored timestamp is not zero.
\<close>

lemma read_interrupt_rise_at_clock_zero:
  "run_interrupt [CallRead, FireISR, FireISR, CallRead]
     (HCSR04_Interrupt_ctor 9 2 30000 HCSR04_CM_PER_US 60000) (Fin 0)
     \<lparr>clock_in = [4294967000, 4294967004, 0, 600, 700], level_in = [HIGH, LOW], io_log = []\<rparr>
   = Some ([HCSR04_ERR_NOT_READY, HCSR04_ERR_NOT_READY], Fin 0,
           HCSR04_Interrupt_ctor 9 2 30000 HCSR04_CM_PER_US 60000
             \<lparr>m_last_shot_us := 4294967004, s_fall_us := 600\<rparr>,
           \<lparr>clock_in = [], level_in = [],
            io_log = [DigitalWrite 9 LOW, DelayMicroseconds 2, DigitalWrite 9 HIGH,
                      DelayMicroseconds 10, DigitalWrite 9 LOW]\<rparr>)"
  by (simp add: read_interrupt_def canStartShot_def markShotStart_def micros_def digitalRead_def
        echoChangeISR_def HCSR04_Interrupt_ctor_def trigPulse_def digitalWrite_def
        delayMicroseconds_def emit_def HCSR04_TRIG_PULSE_US_def)

text \<open>
  C3, as stated, fails in two ways. The caller arms a shot and the interrupt routine
  captures a rise and a fall at the same clock value: the next \<^verbatim>\<open>read\<close>, which finds
  both timestamps populated, returns Bad-param, not OK. The caller arms a shot, the
  routine captures a rise and a fall 600 us apart, and the caller comes back after the
  minimum cycle interval has elapsed: that \<^verbatim>\<open>read\<close> finds both timestamps populated,
  arms a new shot, which resets them, and returns Not-ready; the result is never handed
  over.
\<close>

theorem read_interrupt_harvest_counterexample:
  "run_interrupt [CallRead, FireISR, FireISR, CallRead]
     (HCSR04_Interrupt_ctor 9 2 30000 HCSR04_CM_PER_US 60000) (Fin 0)
     \<lparr>clock_in = [60000, 60004, 60500, 60500, 60600], level_in = [HIGH, LOW], io_log = []\<rparr>
   = Some ([HCSR04_ERR_NOT_READY, HCSR04_ERR_BAD_PARAM], Fin 0,
           HCSR04_Interrupt_ctor 9 2 30000 HCSR04_CM_PER_US 60000\<lparr>m_last_shot_us := 60004\<rparr>,
           \<lparr>clock_in = [], level_in = [],
            io_log = [DigitalWrite 9 LOW, DelayMicroseconds 2, DigitalWrite 9 HIGH,
                      DelayMicroseconds 10, DigitalWrite 9 LOW]\<rparr>) \<and>
   run_interrupt [CallRead, FireISR, FireISR]
     (HCSR04_Interrupt_ctor 9 2 30000 HCSR04_CM_PER_US 60000) (Fin 0)
     \<lparr>clock_in = [60000, 60004, 60500, 61100, 130000, 130004], level_in = [HIGH, LOW], io_log = []\<rparr>
   = Some ([HCSR04_ERR_NOT_READY], Fin 0,
           HCSR04_Interrupt_ctor 9 2 30000 HCSR04_CM_PER_US 60000
             \<lparr>m_last_shot_us := 60004, s_rise_us := 60500, s_fall_us := 61100\<rparr>,
           \<lparr>clock_in = [130000, 130004], level_in = [],
            io_log = [DigitalWrite 9 LOW, DelayMicroseconds 2, DigitalWrite 9 HIGH,
                      DelayMicroseconds 10, DigitalWrite 9 LOW]\<rparr>) \<and>
   read_interrupt
     (HCSR04_Interrupt_ctor 9 2 30000 HCSR04_CM_PER_US 60000
        \<lparr>m_last_shot_us := 60004, s_rise_us := 60500, s_fall_us := 61100\<rparr>) (Fin 0)
     \<lparr>clock_in = [130000, 130004], level_in = [], io_log = []\<rparr>
   = Some (HCSR04_ERR_NOT_READY, Fin 0,
           HCSR04_Interrupt_ctor 9 2 30000 HCSR04_CM_PER_US 60000\<lparr>m_last_shot_us := 130004\<rparr>,
           \<lparr>clock_in = [], level_in = [],
            io_log = [DigitalWrite 9 LOW, DelayMicroseconds 2, DigitalWrite 9 HIGH,
                      DelayMicroseconds 10, DigitalWrite 9 LOW]\<rparr>)"
  by (simp add: read_interrupt_def canStartShot_def markShotStart_def micros_def digitalRead_def
        echoChangeISR_def HCSR04_Interrupt_ctor_def timeUsToCm_def trigPulse_def digitalWrite_def
        delayMicroseconds_def emit_def HCSR04_TRIG_PULSE_US_def)

text \<open>
  C3, as the code has it. Take a call of the interrupt \<^verbatim>\<open>read\<close> entered with both
  timestamps populated. When the guard denies the call, it harvests: it clears both
  timestamps and returns OK with the distance of the high time if fall minus rise is
  nonzero, Bad-param with the caller's distance untouched if it is zero. When the guard
  grants the call, arming the new shot resets both timestamps before they are looked at:
  the pending result is dropped and the call returns Not-ready. In both cases the
  timestamps are clear afterwards, so any \<^verbatim>\<open>read\<close> that follows with no edge captured in
  between returns Not-ready and writes nothing, whatever the clock says, and it does
  return once the clock can be read twice: no result is handed over twice.
\<close>

theorem read_interrupt_consumes_once:
  assumes "s_rise_us d \<noteq> 0" and "s_fall_us d \<noteq> 0"
  shows "(clock_in w = now_us # rest \<and> now_us - m_last_shot_us d < m_min_cycle_us d \<longrightarrow>
            read_interrupt d out_cm w =
              Some (if s_fall_us d \<noteq> s_rise_us d
                    then (HCSR04_OK,
                          fmul (fmul (float_of_ulong (s_fall_us d - s_rise_us d)) (m_cm_per_us d))
                            (float_literal (1 / 2)),
                          d\<lparr>s_rise_us := 0, s_fall_us := 0\<rparr>, w\<lparr>clock_in := rest\<rparr>)
                    else (HCSR04_ERR_BAD_PARAM, out_cm,
                          d\<lparr>s_rise_us := 0, s_fall_us := 0\<rparr>, w\<lparr>clock_in := rest\<rparr>))) \<and>
         (clock_in w = now_us # mark_us # rest \<and> m_min_cycle_us d \<le> now_us - m_last_shot_us d \<longrightarrow>
            read_interrupt d out_cm w =
              Some (HCSR04_ERR_NOT_READY, out_cm,
                    d\<lparr>m_last_shot_us := mark_us, s_waiting_rise := True, s_rise_us := 0, s_fall_us := 0\<rparr>,
                    trigPulse (m_trig_pin d) (w\<lparr>clock_in := rest\<rparr>))) \<and>
         (\<forall>st out_cm' d' w'.
            read_interrupt d out_cm w = Some (st, out_cm', d', w') \<longrightarrow>
            s_rise_us d' = 0 \<and> s_fall_us d' = 0 \<and>
            (\<forall>out2 w2 st2 out2' d2 w2'.
               read_interrupt d' out2 w2 = Some (st2, out2', d2, w2') \<longrightarrow>
               st2 = HCSR04_ERR_NOT_READY \<and> out2' = out2) \<and>
            (\<forall>out2 w2. 2 \<le> length (clock_in w2) \<longrightarrow> read_interrupt d' out2 w2 \<noteq> None))"
proof (intro conjI impI allI)
  assume a: "clock_in w = now_us # rest \<and> now_us - m_last_shot_us d < m_min_cycle_us d"
  then have c: "clock_in w = now_us # rest"
    and "now_us - m_last_shot_us d < m_min_cycle_us d" by simp_all
  then have "\<not> m_min_cycle_us d \<le> now_us - m_last_shot_us d" by simp
  then have "canStartShot d w = Some (HCSR04_ERR_BUSY, w\<lparr>clock_in := rest\<rparr>)"
    by (simp add: canStartShot_Cons [OF c])
  from read_interrupt_denied [OF this, of out_cm] assms
  show "read_interrupt d out_cm w =
              Some (if s_fall_us d \<noteq> s_rise_us d
                    then (HCSR04_OK,
                          fmul (fmul (float_of_ulong (s_fall_us d - s_rise_us d)) (m_cm_per_us d))
                            (float_literal (1 / 2)),
                          d\<lparr>s_rise_us := 0, s_fall_us := 0\<rparr>, w\<lparr>clock_in := rest\<rparr>)
                    else (HCSR04_ERR_BAD_PARAM, out_cm,
                          d\<lparr>s_rise_us := 0, s_fall_us := 0\<rparr>, w\<lparr>clock_in := rest\<rparr>))"
    by simp
next
  assume a: "clock_in w = now_us # mark_us # rest \<and> m_min_cycle_us d \<le> now_us - m_last_shot_us d"
  then have c: "clock_in w = now_us # mark_us # rest" by simp
  from a have g: "canStartShot d w = Some (HCSR04_OK, w\<lparr>clock_in := mark_us # rest\<rparr>)"
    by (simp add: canStartShot_Cons [OF c])
  have "clock_in (w\<lparr>clock_in := mark_us # rest\<rparr>) = mark_us # rest" by simp
  from markShotStart_Cons [OF this, of d]
  have k: "markShotStart d (w\<lparr>clock_in := mark_us # rest\<rparr>) =
           Some (d\<lparr>m_last_shot_us := mark_us\<rparr>, w\<lparr>clock_in := rest\<rparr>)" by simp
  from read_interrupt_granted [OF g k, of out_cm]
  show "read_interrupt d out_cm w =
              Some (HCSR04_ERR_NOT_READY, out_cm,
                    d\<lparr>m_last_shot_us := mark_us, s_waiting_rise := True, s_rise_us := 0, s_fall_us := 0\<rparr>,
                    trigPulse (m_trig_pin d) (w\<lparr>clock_in := rest\<rparr>))"
    by simp
next
  fix st out_cm' d' w'
  assume r: "read_interrupt d out_cm w = Some (st, out_cm', d', w')"
  from read_interrupt_Some [OF r]
  consider (denied) w1 where "canStartShot d w = Some (HCSR04_ERR_BUSY, w1)"
    | (granted) w1 d1 w2 where "canStartShot d w = Some (HCSR04_OK, w1)"
        and "markShotStart d w1 = Some (d1, w2)"
    by blast
  then have z: "s_rise_us d' = 0 \<and> s_fall_us d' = 0"
  proof cases
    case denied
    from r [unfolded read_interrupt_denied [OF denied]] assms show ?thesis
      by (auto split: if_splits)
  next
    case granted
    from r [unfolded read_interrupt_granted [OF granted]] show ?thesis by auto
  qed
  then show "s_rise_us d' = 0" "s_fall_us d' = 0" by simp_all
  from z have u: "s_rise_us d' = 0 \<or> s_fall_us d' = 0" by simp
  { fix out2 w2 st2 out2' d2 w2'
    assume "read_interrupt d' out2 w2 = Some (st2, out2', d2, w2')"
    from read_interrupt_unpopulated [OF this u]
    show "st2 = HCSR04_ERR_NOT_READY" "out2' = out2" by simp_all }
  { fix out2 and w2 :: world
    assume "2 \<le> length (clock_in w2)"
    from read_interrupt_returns [OF this, of d' out2]
    show "read_interrupt d' out2 w2 \<noteq> None" by auto }
qed

theorem read_interrupt_consumes_once_witness:
  "read_interrupt (HCSR04_Interrupt_ctor 9 2 30000 HCSR04_CM_PER_US 60000
       \<lparr>m_last_shot_us := 60004, s_rise_us := 60500, s_fall_us := 61100\<rparr>) (Fin 0)
     \<lparr>clock_in = [61200, 61300], level_in = [], io_log = []\<rparr>
     = Some (HCSR04_OK, Fin (10789847 / 1048576),
             HCSR04_Interrupt_ctor 9 2 30000 HCSR04_CM_PER_US 60000\<lparr>m_last_shot_us := 60004\<rparr>,
             \<lparr>clock_in = [61300], level_in = [], io_log = []\<rparr>) \<and>
   read_interrupt (HCSR04_Interrupt_ctor 9 2 30000 HCSR04_CM_PER_US 60000\<lparr>m_last_shot_us := 60004\<rparr>)
     (Fin (10789847 / 1048576)) \<lparr>clock_in = [61300], level_in = [], io_log = []\<rparr>
     = Some (HCSR04_ERR_NOT_READY, Fin (10789847 / 1048576),
             HCSR04_Interrupt_ctor 9 2 30000 HCSR04_CM_PER_US 60000\<lparr>m_last_shot_us := 60004\<rparr>,
             \<lparr>clock_in = [], level_in = [], io_log = []\<rparr>) \<and>
   read_interrupt (HCSR04_Interrupt_ctor 9 2 30000 HCSR04_CM_PER_US 60000
       \<lparr>m_last_shot_us := 60004, s_rise_us := 60500, s_fall_us := 61100\<rparr>) (Fin 0)
     \<lparr>clock_in = [130000, 130004], level_in = [], io_log = []\<rparr>
     = Some (HCSR04_ERR_NOT_READY, Fin 0,
             HCSR04_Interrupt_ctor 9 2 30000 HCSR04_CM_PER_US 60000\<lparr>m_last_shot_us := 130004\<rparr>,
             \<lparr>clock_in = [], level_in = [],
              io_log = [DigitalWrite 9 LOW, DelayMicroseconds 2, DigitalWrite 9 HIGH,
                        DelayMicroseconds 10, DigitalWrite 9 LOW]\<rparr>)"
proof -
  let ?d = "HCSR04_Interrupt_ctor 9 2 30000 HCSR04_CM_PER_US 60000
       \<lparr>m_last_shot_us := 60004, s_rise_us := 60500, s_fall_us := 61100\<rparr>"
  have p: "s_rise_us ?d \<noteq> 0" "s_fall_us ?d \<noteq> 0"
    by (simp_all add: HCSR04_Interrupt_ctor_def)
  note t1 = read_interrupt_consumes_once [OF p, of "\<lparr>clock_in = [61200, 61300], level_in = [], io_log = []\<rparr>"
      61200 "[61300]" "Fin 0" 0]
  note t2 = read_interrupt_consumes_once [OF p, of "\<lparr>clock_in = [130000, 130004], level_in = [], io_log = []\<rparr>"
      130000 "[]" "Fin 0" 130004]
  have e: "read_interrupt ?d (Fin 0) \<lparr>clock_in = [61200, 61300], level_in = [], io_log = []\<rparr>
     = Some (HCSR04_OK, Fin (10789847 / 1048576),
             HCSR04_Interrupt_ctor 9 2 30000 HCSR04_CM_PER_US 60000\<lparr>m_last_shot_us := 60004\<rparr>,
             \<lparr>clock_in = [61300], level_in = [], io_log = []\<rparr>)"
    using t1 [THEN conjunct1]
    by (simp add: HCSR04_Interrupt_ctor_def distance_600_us)
  from t1 [THEN conjunct2, THEN conjunct2] e
  have n: "\<forall>out2 w2 st2 out2' d2 w2'.
      read_interrupt (HCSR04_Interrupt_ctor 9 2 30000 HCSR04_CM_PER_US 60000\<lparr>m_last_shot_us := 60004\<rparr>)
        out2 w2 = Some (st2, out2', d2, w2') \<longrightarrow>
      st2 = HCSR04_ERR_NOT_READY \<and> out2' = out2"
    by blast
  have f: "read_interrupt (HCSR04_Interrupt_ctor 9 2 30000 HCSR04_CM_PER_US 60000\<lparr>m_last_shot_us := 60004\<rparr>)
     (Fin (10789847 / 1048576)) \<lparr>clock_in = [61300], level_in = [], io_log = []\<rparr>
     = Some (HCSR04_ERR_NOT_READY, Fin (10789847 / 1048576),
             HCSR04_Interrupt_ctor 9 2 30000 HCSR04_CM_PER_US 60000\<lparr>m_last_shot_us := 60004\<rparr>,
             \<lparr>clock_in = [], level_in = [], io_log = []\<rparr>)"
    by (simp add: read_interrupt_def canStartShot_def micros_def HCSR04_Interrupt_ctor_def)
  have g: "read_interrupt ?d (Fin 0) \<lparr>clock_in = [130000, 130004], level_in = [], io_log = []\<rparr>
     = Some (HCSR04_ERR_NOT_READY, Fin 0,
             HCSR04_Interrupt_ctor 9 2 30000 HCSR04_CM_PER_US 60000\<lparr>m_last_shot_us := 130004\<rparr>,
             \<lparr>clock_in = [], level_in = [],
              io_log = [DigitalWrite 9 LOW, DelayMicroseconds 2, DigitalWrite 9 HIGH,
                        DelayMicroseconds 10, DigitalWrite 9 LOW]\<rparr>)"
    using t2 [THEN conjunct2, THEN conjunct1]
    by (simp add: HCSR04_Interrupt_ctor_def trigPulse_def digitalWrite_def delayMicroseconds_def
          emit_def HCSR04_TRIG_PULSE_US_def)
  from e f g show ?thesis by simp
qed

text \<open>
  C10. The interrupt \<^verbatim>\<open>read\<close> has no timeout: in every execution, whatever the
  interleaving of calls and interrupts, every status it returns is OK, Bad-param or
  Not-ready, so neither Timeout-echo-start nor Timeout-echo-end. When the timestamps are
  not both populated and no edge is captured any more, every one of any number of
  subsequent calls returns Not-ready (re-arming a shot whenever the guard allows), leaves
  the caller's distance alone, and the calls do return while the clock can be read.
\<close>
theorem read_interrupt_never_times_out:
  "(run_interrupt ss d out_cm w = Some (sts, out_cm', d', w') \<longrightarrow>
      HCSR04_ERR_TIMEOUT_ECHO_START \<notin> set sts \<and> HCSR04_ERR_TIMEOUT_ECHO_END \<notin> set sts \<and>
      set sts \<subseteq> {HCSR04_OK, HCSR04_ERR_BAD_PARAM, HCSR04_ERR_NOT_READY}) \<and>
   ((s_rise_us d = 0 \<or> s_fall_us d = 0) \<and>
    run_interrupt (replicate n CallRead) d out_cm w = Some (sts, out_cm', d', w') \<longrightarrow>
      sts = replicate n HCSR04_ERR_NOT_READY \<and> out_cm' = out_cm) \<and>
   (2 * n \<le> length (clock_in w) \<longrightarrow> run_interrupt (replicate n CallRead) d out_cm w \<noteq> None)"
proof (intro conjI impI)
  assume r: "run_interrupt ss d out_cm w = Some (sts, out_cm', d', w')"
  from run_interrupt_statuses [OF r]
  show "set sts \<subseteq> {HCSR04_OK, HCSR04_ERR_BAD_PARAM, HCSR04_ERR_NOT_READY}" .
  then show "HCSR04_ERR_TIMEOUT_ECHO_START \<notin> set sts" "HCSR04_ERR_TIMEOUT_ECHO_END \<notin> set sts"
    by auto
next
  assume a: "(s_rise_us d = 0 \<or> s_fall_us d = 0) \<and>
    run_interrupt (replicate n CallRead) d out_cm w = Some (sts, out_cm', d', w')"
  then show "sts = replicate n HCSR04_ERR_NOT_READY" "out_cm' = out_cm"
    using run_reads_unpopulated [of d n out_cm w sts out_cm' d' w'] by simp_all
next
  assume "2 * n \<le> length (clock_in w)"
  from run_reads_returns [OF this, of d out_cm]
  show "run_interrupt (replicate n CallRead) d out_cm w \<noteq> None" by auto
qed

theorem read_interrupt_never_times_out_witness:
  "run_interrupt [CallRead, FireISR, FireISR, CallRead]
     (HCSR04_Interrupt_ctor 9 2 30000 HCSR04_CM_PER_US 60000) (Fin 0)
     \<lparr>clock_in = [60000, 60004, 60500, 61100, 61200], level_in = [HIGH, LOW], io_log = []\<rparr>
   = Some ([HCSR04_ERR_NOT_READY, HCSR04_OK], Fin (10789847 / 1048576),
           HCSR04_Interrupt_ctor 9 2 30000 HCSR04_CM_PER_US 60000\<lparr>m_last_shot_us := 60004\<rparr>,
           \<lparr>clock_in = [], level_in = [],
            io_log = [DigitalWrite 9 LOW, DelayMicroseconds 2, DigitalWrite 9 HIGH,
                      DelayMicroseconds 10, DigitalWrite 9 LOW]\<rparr>) \<and>
   HCSR04_ERR_TIMEOUT_ECHO_START \<notin> set [HCSR04_ERR_NOT_READY, HCSR04_OK] \<and>
   HCSR04_ERR_TIMEOUT_ECHO_END \<notin> set [HCSR04_ERR_NOT_READY, HCSR04_OK] \<and>
   run_interrupt (replicate (Suc (Suc 0)) CallRead)
     (HCSR04_Interrupt_ctor 9 2 30000 HCSR04_CM_PER_US 60000) (Fin 0)
     \<lparr>clock_in = [60000, 60004, 70000, 70004], level_in = [], io_log = []\<rparr>
   = Some ([HCSR04_ERR_NOT_READY, HCSR04_ERR_NOT_READY], Fin 0,
           HCSR04_Interrupt_ctor 9 2 30000 HCSR04_CM_PER_US 60000\<lparr>m_last_shot_us := 60004\<rparr>,
           \<lparr>clock_in = [70004], level_in = [],
            io_log = [DigitalWrite 9 LOW, DelayMicroseconds 2, DigitalWrite 9 HIGH,
                      DelayMicroseconds 10, DigitalWrite 9 LOW]\<rparr>)"
proof -
  have a: "run_interrupt [CallRead, FireISR, FireISR, CallRead]
     (HCSR04_Interrupt_ctor 9 2 30000 HCSR04_CM_PER_US 60000) (Fin 0)
     \<lparr>clock_in = [60000, 60004, 60500, 61100, 61200], level_in = [HIGH, LOW], io_log = []\<rparr>
   = Some ([HCSR04_ERR_NOT_READY, HCSR04_OK], Fin (10789847 / 1048576),
           HCSR04_Interrupt_ctor 9 2 30000 HCSR04_CM_PER_US 60000\<lparr>m_last_shot_us := 60004\<rparr>,
           \<lparr>clock_in = [], level_in = [],
            io_log = [DigitalWrite 9 LOW, DelayMicroseconds 2, DigitalWrite 9 HIGH,
                      DelayMicroseconds 10, DigitalWrite 9 LOW]\<rparr>)"
    by (simp add: read_interrupt_def canStartShot_def markShotStart_def micros_def digitalRead_def
        echoChangeISR_def HCSR04_Interrupt_ctor_def timeUsToCm_def distance_600_us trigPulse_def digitalWrite_def
        delayMicroseconds_def emit_def HCSR04_TRIG_PULSE_US_def)
  have b: "run_interrupt (replicate (Suc (Suc 0)) CallRead)
     (HCSR04_Interrupt_ctor 9 2 30000 HCSR04_CM_PER_US 60000) (Fin 0)
     \<lparr>clock_in = [60000, 60004, 70000, 70004], level_in = [], io_log = []\<rparr>
   = Some ([HCSR04_ERR_NOT_READY, HCSR04_ERR_NOT_READY], Fin 0,
           HCSR04_Interrupt_ctor 9 2 30000 HCSR04_CM_PER_US 60000\<lparr>m_last_shot_us := 60004\<rparr>,
           \<lparr>clock_in = [70004], level_in = [],
            io_log = [DigitalWrite 9 LOW, DelayMicroseconds 2, DigitalWrite 9 HIGH,
                      DelayMicroseconds 10, DigitalWrite 9 LOW]\<rparr>)"
    by (simp add: read_interrupt_def canStartShot_def markShotStart_def micros_def
        HCSR04_Interrupt_ctor_def trigPulse_def digitalWrite_def
        delayMicroseconds_def emit_def HCSR04_TRIG_PULSE_US_def)
  from read_interrupt_never_times_out [of "[CallRead, FireISR, FireISR, CallRead]"
         "HCSR04_Interrupt_ctor 9 2 30000 HCSR04_CM_PER_US 60000" "Fin 0"
         "\<lparr>clock_in = [60000, 60004, 60500, 61100, 61200], level_in = [HIGH, LOW], io_log = []\<rparr>"
         "[HCSR04_ERR_NOT_READY, HCSR04_OK]" "Fin (10789847 / 1048576)"
         "HCSR04_Interrupt_ctor 9 2 30000 HCSR04_CM_PER_US 60000\<lparr>m_last_shot_us := 60004\<rparr>"
         "\<lparr>clock_in = [], level_in = [],
            io_log = [DigitalWrite 9 LOW, DelayMicroseconds 2, DigitalWrite 9 HIGH,
                      DelayMicroseconds 10, DigitalWrite 9 LOW]\<rparr>" 0] a
  have t: "HCSR04_ERR_TIMEOUT_ECHO_START \<notin> set [HCSR04_ERR_NOT_READY, HCSR04_OK] \<and>
           HCSR04_ERR_TIMEOUT_ECHO_END \<notin> set [HCSR04_ERR_NOT_READY, HCSR04_OK]"
    by blast
  from a t b show ?thesis by blast
qed

subsection \<open>The caller's distance variable\<close>

text \<open>
  C9. For \<^verbatim>\<open>read\<close> of either engine: on every call that returns a status other than OK
  the caller's distance variable holds after the call what it held before; on every call
  that returns OK it holds the computed distance, the same whatever it held before. So the
  variable is written exactly on the calls that return OK.
\<close>
theorem read_writes_distance_only_on_OK:
  "(read_polling dp out_cm w = Some (st, out_cm', dp', w') \<longrightarrow>
      (st \<noteq> HCSR04_OK \<longrightarrow> out_cm' = out_cm) \<and>
      (st = HCSR04_OK \<longrightarrow> (\<forall>other. read_polling dp other w = Some (st, out_cm', dp', w')))) \<and>
   (read_interrupt di out_cm w = Some (st, out_cm', di', w') \<longrightarrow>
      (st \<noteq> HCSR04_OK \<longrightarrow> out_cm' = out_cm) \<and>
      (st = HCSR04_OK \<longrightarrow> (\<forall>other. read_interrupt di other w = Some (st, out_cm', di', w'))))"
proof (intro conjI impI allI)
  assume r: "read_polling dp out_cm w = Some (st, out_cm', dp', w')"
  { assume "st \<noteq> HCSR04_OK"
    with r show "out_cm' = out_cm"
      by (cases rule: read_polling_Some) (auto split: if_splits) }
  { fix other
    assume "st = HCSR04_OK"
    with r show "read_polling dp other w = Some (st, out_cm', dp', w')"
    proof (cases rule: read_polling_Some)
      case (measured w1 w2 t_start_us w4 now_us w5 t_rise_us w6 now_us' w7 t_fall_us)
      with \<open>st = HCSR04_OK\<close> have ne: "t_fall_us \<noteq> t_rise_us" by (auto split: if_splits)
      from measured ne show ?thesis
        by (simp add: read_polling_granted [OF measured(1-4)])
    qed simp_all }
next
  assume r: "read_interrupt di out_cm w = Some (st, out_cm', di', w')"
  from read_interrupt_Some [OF r]
  consider (denied) w1 where "canStartShot di w = Some (HCSR04_ERR_BUSY, w1)"
    | (granted) w1 d1 w2 where "canStartShot di w = Some (HCSR04_OK, w1)"
        and "markShotStart di w1 = Some (d1, w2)"
    by blast
  note c = this
  { assume n: "st \<noteq> HCSR04_OK"
    from c show "out_cm' = out_cm"
    proof cases
      case denied
      from r [unfolded read_interrupt_denied [OF denied]] n show ?thesis
        by (auto split: if_splits)
    next
      case granted
      from r [unfolded read_interrupt_granted [OF granted]] show ?thesis by simp
    qed }
  { fix other
    assume k: "st = HCSR04_OK"
    from c show "read_interrupt di other w = Some (st, out_cm', di', w')"
    proof cases
      case denied
      from r [unfolded read_interrupt_denied [OF denied]] k show ?thesis
        unfolding read_interrupt_denied [OF denied] by (auto split: if_splits)
    next
      case granted
      from r [unfolded read_interrupt_granted [OF granted]] k show ?thesis by simp
    qed }
qed

theorem read_writes_distance_only_on_OK_witness:
  "read_polling (IHCSR04_ctor 9 8 30000 HCSR04_CM_PER_US 60000) (Fin 5)
     \<lparr>clock_in = [60000, 60004, 60020, 60024, 60120, 60220, 60228, 60232, 60520, 60820, 60828],
      level_in = [LOW, LOW, HIGH, HIGH, HIGH, LOW], io_log = []\<rparr>
   = Some (HCSR04_OK, Fin (10789847 / 1048576),
           IHCSR04_ctor 9 8 30000 HCSR04_CM_PER_US 60000\<lparr>m_last_shot_us := 60004\<rparr>,
           \<lparr>clock_in = [], level_in = [],
            io_log = [DigitalWrite 9 LOW, DelayMicroseconds 2, DigitalWrite 9 HIGH,
                      DelayMicroseconds 10, DigitalWrite 9 LOW]\<rparr>) \<and>
   read_polling (IHCSR04_ctor 9 8 30000 HCSR04_CM_PER_US 60000) (Fin 42)
     \<lparr>clock_in = [60000, 60004, 60020, 60024, 60120, 60220, 60228, 60232, 60520, 60820, 60828],
      level_in = [LOW, LOW, HIGH, HIGH, HIGH, LOW], io_log = []\<rparr>
   = Some (HCSR04_OK, Fin (10789847 / 1048576),
           IHCSR04_ctor 9 8 30000 HCSR04_CM_PER_US 60000\<lparr>m_last_shot_us := 60004\<rparr>,
           \<lparr>clock_in = [], level_in = [],
            io_log = [DigitalWrite 9 LOW, DelayMicroseconds 2, DigitalWrite 9 HIGH,
                      DelayMicroseconds 10, DigitalWrite 9 LOW]\<rparr>) \<and>
   read_interrupt (HCSR04_Interrupt_ctor 9 2 30000 HCSR04_CM_PER_US 60000) (Fin 5)
     \<lparr>clock_in = [100], level_in = [], io_log = []\<rparr>
   = Some (HCSR04_ERR_NOT_READY, Fin 5, HCSR04_Interrupt_ctor 9 2 30000 HCSR04_CM_PER_US 60000,
           \<lparr>clock_in = [], level_in = [], io_log = []\<rparr>) \<and>
   HCSR04_ERR_NOT_READY \<noteq> HCSR04_OK"
proof -
  have p: "read_polling (IHCSR04_ctor 9 8 30000 HCSR04_CM_PER_US 60000) (Fin 5)
     \<lparr>clock_in = [60000, 60004, 60020, 60024, 60120, 60220, 60228, 60232, 60520, 60820, 60828],
      level_in = [LOW, LOW, HIGH, HIGH, HIGH, LOW], io_log = []\<rparr>
   = Some (HCSR04_OK, Fin (10789847 / 1048576),
           IHCSR04_ctor 9 8 30000 HCSR04_CM_PER_US 60000\<lparr>m_last_shot_us := 60004\<rparr>,
           \<lparr>clock_in = [], level_in = [],
            io_log = [DigitalWrite 9 LOW, DelayMicroseconds 2, DigitalWrite 9 HIGH,
                      DelayMicroseconds 10, DigitalWrite 9 LOW]\<rparr>)"
    by (simp add: read_polling_def canStartShot_def markShotStart_def micros_def digitalRead_def
        IHCSR04_ctor_def trigPulse_def digitalWrite_def delayMicroseconds_def emit_def
        HCSR04_TRIG_PULSE_US_def wait_echo.simps timeUsToCm_def distance_600_us)
  have i: "read_interrupt (HCSR04_Interrupt_ctor 9 2 30000 HCSR04_CM_PER_US 60000) (Fin 5)
     \<lparr>clock_in = [100], level_in = [], io_log = []\<rparr>
   = Some (HCSR04_ERR_NOT_READY, Fin 5, HCSR04_Interrupt_ctor 9 2 30000 HCSR04_CM_PER_US 60000,
           \<lparr>clock_in = [], level_in = [], io_log = []\<rparr>)"
    by (simp add: read_interrupt_def canStartShot_def micros_def HCSR04_Interrupt_ctor_def)
  from read_writes_distance_only_on_OK [where dp = "IHCSR04_ctor 9 8 30000 HCSR04_CM_PER_US 60000"
      and out_cm = "Fin 5" and st = HCSR04_OK and out_cm' = "Fin (10789847 / 1048576)"
      and w = "\<lparr>clock_in = [60000, 60004, 60020, 60024, 60120, 60220, 60228, 60232, 60520, 60820, 60828],
               level_in = [LOW, LOW, HIGH, HIGH, HIGH, LOW], io_log = []\<rparr>"
      and dp' = "IHCSR04_ctor 9 8 30000 HCSR04_CM_PER_US 60000\<lparr>m_last_shot_us := 60004\<rparr>"
      and w' = "\<lparr>clock_in = [], level_in = [],
            io_log = [DigitalWrite 9 LOW, DelayMicroseconds 2, DigitalWrite 9 HIGH,
                      DelayMicroseconds 10, DigitalWrite 9 LOW]\<rparr>"] p
  have q: "read_polling (IHCSR04_ctor 9 8 30000 HCSR04_CM_PER_US 60000) (Fin 42)
     \<lparr>clock_in = [60000, 60004, 60020, 60024, 60120, 60220, 60228, 60232, 60520, 60820, 60828],
      level_in = [LOW, LOW, HIGH, HIGH, HIGH, LOW], io_log = []\<rparr>
   = Some (HCSR04_OK, Fin (10789847 / 1048576),
           IHCSR04_ctor 9 8 30000 HCSR04_CM_PER_US 60000\<lparr>m_last_shot_us := 60004\<rparr>,
           \<lparr>clock_in = [], level_in = [],
            io_log = [DigitalWrite 9 LOW, DelayMicroseconds 2, DigitalWrite 9 HIGH,
                      DelayMicroseconds 10, DigitalWrite 9 LOW]\<rparr>)"
    by blast
  from p q i show ?thesis by simp
qed

subsection \<open>The busy-wait loops of the polling engine\<close>

lemma digitalRead_Some:
  "digitalRead pin w = Some (l, w1) \<Longrightarrow>
     level_in w = l # level_in w1 \<and> clock_in w1 = clock_in w \<and> io_log w1 = io_log w"
  by (auto simp: digitalRead_def split: list.splits)

lemma wait_echo_done:
  "t_edge_us \<noteq> 0 \<Longrightarrow>
   wait_echo want pin t_start_us timeout_us now_us t_edge_us w = Some (t_edge_us, w)"
  by (simp add: wait_echo.simps)

lemma wait_echo_closed:
  "\<not> now_us - t_start_us < timeout_us \<Longrightarrow>
   wait_echo want pin t_start_us timeout_us now_us t_edge_us w = Some (t_edge_us, w)"
  by (simp add: wait_echo.simps)

lemma wait_echo_step:
  assumes "now_us - t_start_us < timeout_us"
    and "digitalRead pin w = Some (l, w1)" and "micros w1 = Some (now', w2)"
  shows "wait_echo want pin t_start_us timeout_us now_us 0 w =
         wait_echo want pin t_start_us timeout_us now' (if l = want then now_us else 0) w2"
  using assms by (subst wait_echo.simps) simp

lemma wait_echo_Some_step:
  assumes "wait_echo want pin t_start_us timeout_us now_us 0 w = Some (t, w')"
    and "now_us - t_start_us < timeout_us"
  obtains l w1 now' w2 where "digitalRead pin w = Some (l, w1)" "micros w1 = Some (now', w2)"
    "wait_echo want pin t_start_us timeout_us now' (if l = want then now_us else 0) w2 = Some (t, w')"
proof -
  from assms obtain l w1 where r: "digitalRead pin w = Some (l, w1)"
    by (cases "digitalRead pin w") (auto simp: wait_echo.simps [of _ _ _ _ now_us])
  from assms r obtain now' w2 where m: "micros w1 = Some (now', w2)"
    by (cases "micros w1") (auto simp: wait_echo.simps [of _ _ _ _ now_us])
  from assms(1) [unfolded wait_echo_step [OF assms(2) r m]] r m show thesis by (rule that [rotated 2])
qed

text \<open>
  An edge time the loop hands back was taken from a sample of the awaited level inside the
  window that opened at \<open>t_start_us\<close>.
\<close>

lemma wait_echo_recorded:
  "wait_echo want pin t_start_us timeout_us now_us 0 w = Some (t, w') \<Longrightarrow> t \<noteq> 0 \<Longrightarrow>
   seen_in_window want t_start_us timeout_us now_us (level_in w) (clock_in w) \<and>
   t - t_start_us < timeout_us"
proof (induction "clock_in w" arbitrary: now_us w)
  case Nil
  show ?case
  proof (cases "now_us - t_start_us < timeout_us")
    case True
    from Nil.prems(1) True obtain l w1 now' w2 where "digitalRead pin w = Some (l, w1)"
      "micros w1 = Some (now', w2)" by (rule wait_echo_Some_step)
    with Nil.hyps show ?thesis by (auto dest!: digitalRead_Some micros_Some)
  next
    case False
    from Nil.prems [unfolded wait_echo_closed [OF False]] show ?thesis by simp
  qed
next
  case (Cons c cs)
  show ?case
  proof (cases "now_us - t_start_us < timeout_us")
    case False
    from Cons.prems [unfolded wait_echo_closed [OF False]] show ?thesis by simp
  next
    case True
    from Cons.prems(1) True obtain l w1 now' w2 where r: "digitalRead pin w = Some (l, w1)"
      and m: "micros w1 = Some (now', w2)"
      and k: "wait_echo want pin t_start_us timeout_us now' (if l = want then now_us else 0) w2 = Some (t, w')"
      by (rule wait_echo_Some_step)
    from digitalRead_Some [OF r] micros_Some [OF m]
    have ls: "level_in w = l # level_in w2" and cl: "clock_in w = now' # clock_in w2"
      by simp_all
    from Cons.hyps(2) [unfolded cl] have cs: "cs = clock_in w2" by simp
    show ?thesis
    proof (cases "l = want \<and> now_us \<noteq> 0")
      case True
      with k have "t = now_us" by (simp add: wait_echo_done)
      with True \<open>now_us - t_start_us < timeout_us\<close> show ?thesis by (simp add: ls cl)
    next
      case False
      with k have k0: "wait_echo want pin t_start_us timeout_us now' 0 w2 = Some (t, w')"
        by (auto split: if_splits)
      from Cons.hyps(1) [OF cs k0 Cons.prems(2)] True show ?thesis by (simp add: ls cl)
    qed
  qed
qed

text \<open>
  Conversely, when no clock reading involved is zero, an awaited level that is seen in the
  window is recorded.
\<close>

lemma wait_echo_seen:
  "wait_echo want pin t_start_us timeout_us now_us 0 w = Some (t, w') \<Longrightarrow>
   now_us \<noteq> 0 \<Longrightarrow> 0 \<notin> set (clock_in w) \<Longrightarrow>
   seen_in_window want t_start_us timeout_us now_us (level_in w) (clock_in w) \<Longrightarrow> t \<noteq> 0"
proof (induction "clock_in w" arbitrary: now_us w)
  case Nil
  then show ?case by simp
next
  case (Cons c cs)
  from Cons.prems(4) Cons.hyps(2) [symmetric] have o: "now_us - t_start_us < timeout_us"
    by (cases "level_in w") simp_all
  from Cons.prems(1) o obtain l w1 now' w2 where r: "digitalRead pin w = Some (l, w1)"
      and m: "micros w1 = Some (now', w2)"
      and k: "wait_echo want pin t_start_us timeout_us now' (if l = want then now_us else 0) w2 = Some (t, w')"
    by (rule wait_echo_Some_step)
  from digitalRead_Some [OF r] micros_Some [OF m]
  have ls: "level_in w = l # level_in w2" and cl: "clock_in w = now' # clock_in w2"
    by simp_all
  from Cons.hyps(2) [unfolded cl] have cs: "cs = clock_in w2" by simp
  show ?case
  proof (cases "l = want")
    case True
    with k Cons.prems(2) show ?thesis by (simp add: wait_echo_done)
  next
    case False
    with k have k0: "wait_echo want pin t_start_us timeout_us now' 0 w2 = Some (t, w')" by simp
    from Cons.prems(3) cl have n: "now' \<noteq> 0" and z: "0 \<notin> set (clock_in w2)" by auto
    from Cons.prems(4) False have "seen_in_window want t_start_us timeout_us now' (level_in w2) (clock_in w2)"
      by (simp add: ls cl)
    from Cons.hyps(1) [OF cs k0 n z this] show ?thesis .
  qed
qed

text \<open>
  The loop returns as soon as it has read a clock value outside the window: enough clock
  readings and samples give a result.
\<close>

lemma wait_echo_returns:
  "length (clock_in w) \<le> length (level_in w) \<Longrightarrow>
   \<exists>c \<in> set (clock_in w). \<not> c - t_start_us < timeout_us \<Longrightarrow>
   \<exists>r. wait_echo want pin t_start_us timeout_us now_us t_edge_us w = Some r"
proof (induction "clock_in w" arbitrary: now_us t_edge_us w)
  case Nil
  then show ?case by simp
next
  case (Cons c cs)
  show ?case
  proof (cases "now_us - t_start_us < timeout_us \<and> t_edge_us = 0")
    case False
    then show ?thesis by (auto simp: wait_echo.simps [of _ _ _ _ now_us])
  next
    case True
    from Cons.hyps(2) Cons.prems(1) obtain l ls where ls: "level_in w = l # ls"
      by (cases "level_in w") auto
    let ?w1 = "w\<lparr>level_in := ls\<rparr>"
    let ?w2 = "?w1\<lparr>clock_in := cs\<rparr>"
    have r: "digitalRead pin w = Some (l, ?w1)" by (simp add: digitalRead_def ls)
    have m: "micros ?w1 = Some (c, ?w2)" using Cons.hyps(2) [symmetric] by (simp add: micros_def)
    have e: "wait_echo want pin t_start_us timeout_us now_us t_edge_us w =
             wait_echo want pin t_start_us timeout_us c (if l = want then now_us else t_edge_us) ?w2"
      using True r m by (subst wait_echo.simps) simp
    show ?thesis
    proof (cases "c - t_start_us < timeout_us")
      case False
      then show ?thesis unfolding e by (simp add: wait_echo_closed)
    next
      case True
      have 1: "cs = clock_in ?w2" by simp
      have 2: "length (clock_in ?w2) \<le> length (level_in ?w2)"
        using Cons.prems(1) Cons.hyps(2) [symmetric] ls by simp
      have 3: "\<exists>c \<in> set (clock_in ?w2). \<not> c - t_start_us < timeout_us"
        using Cons.prems(2) Cons.hyps(2) [symmetric] True by auto
      from Cons.hyps(1) [OF 1 2 3] show ?thesis unfolding e .
    qed
  qed
qed

lemma trigPulse_inputs:
  "clock_in (trigPulse pin w) = clock_in w \<and> level_in (trigPulse pin w) = level_in w"
  by (simp add: trigPulse_def digitalWrite_def delayMicroseconds_def emit_def)

lemma polling_prefix:
  assumes c: "clock_in w = g # m # t_start_us # now_us # cs"
    and 1: "canStartShot d w = Some (st0, w1)"
    and 2: "markShotStart d w1 = Some (d1, w2)"
    and 3: "micros (trigPulse pin w2) = Some (ts, w4)"
    and 4: "micros w4 = Some (nw, w5)"
  shows "ts = t_start_us \<and> nw = now_us \<and> clock_in w5 = cs \<and> level_in w5 = level_in w"
proof -
  from canStartShot_world [OF 1] c have w1: "clock_in w1 = m # t_start_us # now_us # cs"
    "level_in w1 = level_in w" by simp_all
  from markShotStart_Some [OF 2] obtain t where "micros w1 = Some (t, w2)" by blast
  from micros_Some [OF this] w1 have w2: "clock_in w2 = t_start_us # now_us # cs"
    "level_in w2 = level_in w" by simp_all
  from micros_Some [OF 3] w2 have w4: "ts = t_start_us" "clock_in w4 = now_us # cs"
    "level_in w4 = level_in w" by (simp_all add: trigPulse_inputs)
  from micros_Some [OF 4] w4 show ?thesis by simp
qed

text \<open>
  One window for both waits. In a call that the guard lets through, with \<open>t_start_us\<close>
  the clock value read after the trigger pulse: a status other than Timeout-echo-start
  means that a high level was sampled in the window opened at \<open>t_start_us\<close>; an edge time
  that is recorded, rise or fall, lies less than the timeout after \<open>t_start_us\<close>; and
  when no clock reading of the wait is zero, Timeout-echo-start means that no high level
  was sampled in the window.
\<close>

lemma read_polling_shared_window:
  assumes c: "clock_in w = g # m # t_start_us # now_us # cs"
    and g: "m_min_cycle_us d \<le> g - m_last_shot_us d"
    and r: "read_polling d out_cm w = Some (st, out_cm', d', w')"
  shows "st = HCSR04_ERR_TIMEOUT_ECHO_START \<or> st = HCSR04_ERR_TIMEOUT_ECHO_END \<or>
         st = HCSR04_OK \<or> st = HCSR04_ERR_BAD_PARAM"
    and "st \<noteq> HCSR04_ERR_TIMEOUT_ECHO_START \<Longrightarrow>
         seen_in_window HIGH t_start_us (m_timeout_us d) now_us (level_in w) cs"
    and "st = HCSR04_ERR_TIMEOUT_ECHO_START \<Longrightarrow> 0 \<notin> set (now_us # cs) \<Longrightarrow>
         \<not> seen_in_window HIGH t_start_us (m_timeout_us d) now_us (level_in w) cs"
    and "st = HCSR04_OK \<Longrightarrow>
         \<exists>t_rise_us t_fall_us.
           t_rise_us - t_start_us < m_timeout_us d \<and> t_fall_us - t_start_us < m_timeout_us d \<and>
           out_cm' = fmul (fmul (float_of_ulong (t_fall_us - t_rise_us)) (m_cm_per_us d)) (float_literal (1 / 2))"
proof -
  have ok: "canStartShot d w = Some (HCSR04_OK, w\<lparr>clock_in := m # t_start_us # now_us # cs\<rparr>)"
    using g by (simp add: canStartShot_Cons [OF c])
  from r have "(st = HCSR04_ERR_TIMEOUT_ECHO_START \<or> st = HCSR04_ERR_TIMEOUT_ECHO_END \<or>
         st = HCSR04_OK \<or> st = HCSR04_ERR_BAD_PARAM) \<and>
     (st \<noteq> HCSR04_ERR_TIMEOUT_ECHO_START \<longrightarrow>
         seen_in_window HIGH t_start_us (m_timeout_us d) now_us (level_in w) cs) \<and>
     (st = HCSR04_ERR_TIMEOUT_ECHO_START \<longrightarrow> 0 \<notin> set (now_us # cs) \<longrightarrow>
         \<not> seen_in_window HIGH t_start_us (m_timeout_us d) now_us (level_in w) cs) \<and>
     (st = HCSR04_OK \<longrightarrow>
         (\<exists>t_rise_us t_fall_us.
           t_rise_us - t_start_us < m_timeout_us d \<and> t_fall_us - t_start_us < m_timeout_us d \<and>
           out_cm' = fmul (fmul (float_of_ulong (t_fall_us - t_rise_us)) (m_cm_per_us d)) (float_literal (1 / 2))))"
  proof (cases rule: read_polling_Some)
    case denied
    with ok show ?thesis by simp
  next
    case (no_rise w1 w2 ts w4 nw w5)
    from polling_prefix [OF c no_rise(1-4)]
    have p: "ts = t_start_us" "nw = now_us" "clock_in w5 = cs" "level_in w5 = level_in w"
      by simp_all
    from wait_echo_seen [OF no_rise(5)] p no_rise(6) show ?thesis by auto
  next
    case (no_fall w1 w2 ts w4 nw w5 t_rise_us w6 nw' w7)
    from polling_prefix [OF c no_fall(1-4)]
    have p: "ts = t_start_us" "nw = now_us" "clock_in w5 = cs" "level_in w5 = level_in w"
      by simp_all
    from wait_echo_recorded [OF no_fall(5,6)] p no_fall(9) show ?thesis by simp
  next
    case (measured w1 w2 ts w4 nw w5 t_rise_us w6 nw' w7 t_fall_us)
    from polling_prefix [OF c measured(1-4)]
    have p: "ts = t_start_us" "nw = now_us" "clock_in w5 = cs" "level_in w5 = level_in w"
      by simp_all
    from wait_echo_recorded [OF measured(5,6)] p
    have s: "seen_in_window HIGH t_start_us (m_timeout_us d) now_us (level_in w) cs"
      and tr: "t_rise_us - t_start_us < m_timeout_us d" by simp_all
    from wait_echo_recorded [OF measured(8,9)] p
    have tf: "t_fall_us - t_start_us < m_timeout_us d" by simp
    from s tr tf measured(10,11) show ?thesis by (auto split: if_splits)
  qed
  then show "st = HCSR04_ERR_TIMEOUT_ECHO_START \<or> st = HCSR04_ERR_TIMEOUT_ECHO_END \<or>
         st = HCSR04_OK \<or> st = HCSR04_ERR_BAD_PARAM"
    and "st \<noteq> HCSR04_ERR_TIMEOUT_ECHO_START \<Longrightarrow>
         seen_in_window HIGH t_start_us (m_timeout_us d) now_us (level_in w) cs"
    and "st = HCSR04_ERR_TIMEOUT_ECHO_START \<Longrightarrow> 0 \<notin> set (now_us # cs) \<Longrightarrow>
         \<not> seen_in_window HIGH t_start_us (m_timeout_us d) now_us (level_in w) cs"
    and "st = HCSR04_OK \<Longrightarrow>
         \<exists>t_rise_us t_fall_us.
           t_rise_us - t_start_us < m_timeout_us d \<and> t_fall_us - t_start_us < m_timeout_us d \<and>
           out_cm' = fmul (fmul (float_of_ulong (t_fall_us - t_rise_us)) (m_cm_per_us d)) (float_literal (1 / 2))"
    by blast+
qed

text \<open>
  The loop does not read past the first clock value that lies outside the window.
\<close>

lemma wait_echo_rest:
  "clock_in w = pre @ c # post \<Longrightarrow> \<not> c - t_start_us < timeout_us \<Longrightarrow>
   length (clock_in w) \<le> length (level_in w) \<Longrightarrow>
   \<exists>t w' suf. wait_echo want pin t_start_us timeout_us now_us t_edge_us w = Some (t, w') \<and>
      clock_in w' = suf @ post \<and> length (clock_in w') \<le> length (level_in w')"
proof (induction pre arbitrary: now_us t_edge_us w)
  case Nil
  show ?case
  proof (cases "now_us - t_start_us < timeout_us \<and> t_edge_us = 0")
    case False
    then have "wait_echo want pin t_start_us timeout_us now_us t_edge_us w = Some (t_edge_us, w)"
      by (auto simp: wait_echo.simps [of _ _ _ _ now_us])
    with Nil.prems show ?thesis by auto
  next
    case True
    from Nil.prems obtain l ls where ls: "level_in w = l # ls"
      by (cases "level_in w") auto
    let ?w1 = "w\<lparr>level_in := ls\<rparr>"
    let ?w2 = "?w1\<lparr>clock_in := post\<rparr>"
    have r: "digitalRead pin w = Some (l, ?w1)" by (simp add: digitalRead_def ls)
    have m: "micros ?w1 = Some (c, ?w2)" using Nil.prems(1) by (simp add: micros_def)
    have "wait_echo want pin t_start_us timeout_us now_us t_edge_us w =
          wait_echo want pin t_start_us timeout_us c (if l = want then now_us else t_edge_us) ?w2"
      using True r m by (subst wait_echo.simps) simp
    also have "\<dots> = Some (if l = want then now_us else t_edge_us, ?w2)"
      using Nil.prems(2) by (rule wait_echo_closed)
    finally show ?thesis using Nil.prems(1,3) ls by auto
  qed
next
  case (Cons p pre)
  show ?case
  proof (cases "now_us - t_start_us < timeout_us \<and> t_edge_us = 0")
    case False
    then have "wait_echo want pin t_start_us timeout_us now_us t_edge_us w = Some (t_edge_us, w)"
      by (auto simp: wait_echo.simps [of _ _ _ _ now_us])
    with Cons.prems show ?thesis by auto
  next
    case True
    from Cons.prems obtain l ls where ls: "level_in w = l # ls"
      by (cases "level_in w") auto
    let ?w1 = "w\<lparr>level_in := ls\<rparr>"
    let ?w2 = "?w1\<lparr>clock_in := pre @ c # post\<rparr>"
    have r: "digitalRead pin w = Some (l, ?w1)" by (simp add: digitalRead_def ls)
    have m: "micros ?w1 = Some (p, ?w2)" using Cons.prems(1) by (simp add: micros_def)
    have e: "wait_echo want pin t_start_us timeout_us now_us t_edge_us w =
          wait_echo want pin t_start_us timeout_us p (if l = want then now_us else t_edge_us) ?w2"
      using True r m by (subst wait_echo.simps) simp
    have 1: "clock_in ?w2 = pre @ c # post" by simp
    have 3: "length (clock_in ?w2) \<le> length (level_in ?w2)"
      using Cons.prems(1,3) ls by simp
    from Cons.IH [OF 1 Cons.prems(2) 3] show ?thesis unfolding e .
  qed
qed

text \<open>
  \<^verbatim>\<open>read\<close> returns: when the clock readings after the first sample end with two values
  outside the window, and there is a sample of the echo pin for each reading, the call
  comes back with a status.
\<close>

lemma read_polling_returns:
  assumes c: "clock_in w = g # m # t_start_us # now_us # pre @ [c1, c2]"
    and c1: "\<not> c1 - t_start_us < m_timeout_us d" and c2: "\<not> c2 - t_start_us < m_timeout_us d"
    and l: "length pre + 2 \<le> length (level_in w)"
  shows "read_polling d out_cm w \<noteq> None"
proof (cases "m_min_cycle_us d \<le> g - m_last_shot_us d")
  case False
  then have "canStartShot d w = Some (HCSR04_ERR_BUSY, w\<lparr>clock_in := m # t_start_us # now_us # pre @ [c1, c2]\<rparr>)"
    by (simp add: canStartShot_Cons [OF c])
  from read_polling_denied [OF this, of out_cm] show ?thesis by simp
next
  case True
  let ?w1 = "w\<lparr>clock_in := m # t_start_us # now_us # pre @ [c1, c2]\<rparr>"
  let ?w2 = "w\<lparr>clock_in := t_start_us # now_us # pre @ [c1, c2]\<rparr>"
  let ?w3 = "trigPulse (m_trig_pin d) ?w2"
  let ?w4 = "?w3\<lparr>clock_in := now_us # pre @ [c1, c2]\<rparr>"
  let ?w5 = "?w4\<lparr>clock_in := pre @ [c1, c2]\<rparr>"
  have k1: "canStartShot d w = Some (HCSR04_OK, ?w1)"
    using True by (simp add: canStartShot_Cons [OF c])
  have k2: "markShotStart d ?w1 = Some (d\<lparr>m_last_shot_us := m\<rparr>, ?w2)"
    by (simp add: markShotStart_def micros_def)
  have k3: "micros ?w3 = Some (t_start_us, ?w4)"
    by (simp add: micros_def trigPulse_inputs)
  have k4: "micros ?w4 = Some (now_us, ?w5)"
    by (simp add: micros_def)
  note g = read_polling_granted [OF k1 k2 k3 k4, of out_cm]
  have 1: "clock_in ?w5 = pre @ c1 # [c2]" by simp
  have 3: "length (clock_in ?w5) \<le> length (level_in ?w5)"
    using l by (simp add: trigPulse_inputs)
  from wait_echo_rest [OF 1 c1 3, of HIGH "m_echo_pin d" now_us 0]
  obtain t_rise_us w6 suf where
    r: "wait_echo HIGH (m_echo_pin d) t_start_us (m_timeout_us d) now_us 0 ?w5 = Some (t_rise_us, w6)"
    and s: "clock_in w6 = suf @ [c2]" and l6: "length (clock_in w6) \<le> length (level_in w6)"
    by blast
  show ?thesis
  proof (cases "t_rise_us = 0")
    case True
    with r show ?thesis unfolding g by (simp del: not_None_eq)
  next
    case nz: False
    show ?thesis
    proof (cases suf)
      case Nil
      with s have m6: "micros w6 = Some (c2, w6\<lparr>clock_in := []\<rparr>)" by (simp add: micros_def)
      from r nz m6 show ?thesis unfolding g
        by (simp add: wait_echo_closed [OF c2] del: not_None_eq)
    next
      case (Cons now' suf')
      let ?w7 = "w6\<lparr>clock_in := suf' @ [c2]\<rparr>"
      from Cons s have m6: "micros w6 = Some (now', ?w7)" by (simp add: micros_def)
      have 1: "clock_in ?w7 = suf' @ c2 # []" by simp
      have 3: "length (clock_in ?w7) \<le> length (level_in ?w7)" using l6 s Cons by simp
      from wait_echo_rest [OF 1 c2 3, of LOW "m_echo_pin d" now' 0]
      obtain t_fall_us w8 where
        "wait_echo LOW (m_echo_pin d) t_start_us (m_timeout_us d) now' 0 ?w7 = Some (t_fall_us, w8)"
        by blast
      with r nz m6 show ?thesis unfolding g
        by (simp del: not_None_eq)
    qed
  qed
qed

text \<open>
  C5 at the input where the code departs from it. The timeout is 110 us and the clock
  wraps during the wait for the rise: the window opens at \<open>t_start_us = 2 ^ 32 - 104\<close>,
  the echo pin is sampled low at elapsed times 8, 48 and 88 and high at elapsed time 104,
  where the clock reads 0, and the next clock reading, 8, is past the window. A high level
  was sampled inside the window, and \<^verbatim>\<open>read\<close> returns Timeout-echo-start: the clock value
  0 stored as the rise time is the very value the loop takes for "no edge yet".
\<close>
theorem read_polling_rise_at_clock_zero:
  "seen_in_window HIGH 4294967192 110 4294967200 [LOW, LOW, LOW, HIGH] [4294967240, 4294967280, 0, 8] \<and>
   read_polling (IHCSR04_ctor 9 8 110 HCSR04_CM_PER_US 60000) (Fin 7)
     \<lparr>clock_in = [4294967160, 4294967164, 4294967192, 4294967200, 4294967240, 4294967280, 0, 8],
      level_in = [LOW, LOW, LOW, HIGH], io_log = []\<rparr>
   = Some (HCSR04_ERR_TIMEOUT_ECHO_START, Fin 7,
           IHCSR04_ctor 9 8 110 HCSR04_CM_PER_US 60000\<lparr>m_last_shot_us := 4294967164\<rparr>,
           \<lparr>clock_in = [], level_in = [],
            io_log = [DigitalWrite 9 LOW, DelayMicroseconds 2, DigitalWrite 9 HIGH,
                      DelayMicroseconds 10, DigitalWrite 9 LOW]\<rparr>)"
  by (simp add: read_polling_def canStartShot_def markShotStart_def micros_def digitalRead_def
        IHCSR04_ctor_def trigPulse_def digitalWrite_def delayMicroseconds_def emit_def
        HCSR04_TRIG_PULSE_US_def wait_echo.simps)

subsection \<open>The two pins\<close>

lemma call_setter_pins:
  "m_trig_pin d \<noteq> m_echo_pin d \<Longrightarrow> m_trig_pin (call_setter d c) \<noteq> m_echo_pin (call_setter d c)"
  by (cases c)
     (simp_all add: setTrigPin_def setEchoPin_def setTimeoutUs_def setMinCycleUs_def setSoundSpeed_def)

lemma call_setters_pins:
  "m_trig_pin d \<noteq> m_echo_pin d \<Longrightarrow>
   m_trig_pin (foldl call_setter d cs) \<noteq> m_echo_pin (foldl call_setter d cs)"
  by (induction cs arbitrary: d) (simp_all add: call_setter_pins)

lemma read_polling_pins:
  assumes "read_polling d out_cm w = Some (st, out_cm', d', w')"
  shows "m_trig_pin d' = m_trig_pin d \<and> m_echo_pin d' = m_echo_pin d"
  using assms by (cases rule: read_polling_Some) (auto dest!: markShotStart_Some)

lemma read_interrupt_pins:
  assumes "read_interrupt d out_cm w = Some (st, out_cm', d', w')"
  shows "m_trig_pin d' = m_trig_pin d \<and> m_echo_pin d' = m_echo_pin d"
proof -
  from read_interrupt_Some [OF assms]
  consider (denied) w1 where "canStartShot d w = Some (HCSR04_ERR_BUSY, w1)"
    | (granted) w1 d1 w2 where "canStartShot d w = Some (HCSR04_OK, w1)"
        and "markShotStart d w1 = Some (d1, w2)"
    by blast
  then show ?thesis
  proof cases
    case denied
    from assms [unfolded read_interrupt_denied [OF denied]] show ?thesis
      by (auto split: if_splits)
  next
    case granted
    from assms [unfolded read_interrupt_granted [OF granted]] markShotStart_Some [OF granted(2)]
    show ?thesis by auto
  qed
qed

lemma echoChangeISR_pins:
  assumes "echoChangeISR d w = Some (d', w')"
  shows "m_trig_pin d' = m_trig_pin d \<and> m_echo_pin d' = m_echo_pin d"
  using assms by (auto simp: echoChangeISR_def bind_eq_Some_conv split: if_splits)

text \<open>
  C2, as stated, fails in the freshly constructed state: the constructor stores the two
  pin numbers it is given without comparing them, so an object constructed with pin 5 for
  both has trigger pin equal to echo pin.
\<close>
theorem pins_distinct_counterexample:
  "m_trig_pin (IHCSR04_ctor 5 5 30000 HCSR04_CM_PER_US 60000) =
   m_echo_pin (IHCSR04_ctor 5 5 30000 HCSR04_CM_PER_US 60000)"
  by (simp add: IHCSR04_ctor_def)

text \<open>
  C2, as the code has it. The constructor does not check the pins. Once the two pins
  differ, and so from an object constructed with two different pins, they differ after
  every sequence of setter calls, and no call of \<^verbatim>\<open>read\<close> of either engine nor any
  firing of the interrupt routine changes them. \<^verbatim>\<open>setTrigPin\<close> given the current echo
  pin, and \<^verbatim>\<open>setEchoPin\<close> given the current trigger pin, return Bad-param and leave the
  object, both pins included, unchanged.
\<close>
theorem pins_stay_distinct:
  "(m_trig_pin d \<noteq> m_echo_pin d \<longrightarrow>
      m_trig_pin (foldl call_setter d cs) \<noteq> m_echo_pin (foldl call_setter d cs)) \<and>
   (trig_pin \<noteq> echo_pin \<longrightarrow>
      m_trig_pin (foldl call_setter (IHCSR04_ctor trig_pin echo_pin timeout_us cm_per_us min_cycle_us) cs)
      \<noteq> m_echo_pin (foldl call_setter (IHCSR04_ctor trig_pin echo_pin timeout_us cm_per_us min_cycle_us) cs)) \<and>
   setTrigPin d (m_echo_pin d) = (HCSR04_ERR_BAD_PARAM, d) \<and>
   setEchoPin d (m_trig_pin d) = (HCSR04_ERR_BAD_PARAM, d) \<and>
   (read_polling dp out_cm w = Some (st, out_cm', dp', w') \<longrightarrow>
      m_trig_pin dp' = m_trig_pin dp \<and> m_echo_pin dp' = m_echo_pin dp) \<and>
   (read_interrupt di out_cm w = Some (st, out_cm', di', w') \<longrightarrow>
      m_trig_pin di' = m_trig_pin di \<and> m_echo_pin di' = m_echo_pin di) \<and>
   (echoChangeISR di w = Some (di', w') \<longrightarrow>
      m_trig_pin di' = m_trig_pin di \<and> m_echo_pin di' = m_echo_pin di)"
proof -
  have "trig_pin \<noteq> echo_pin \<longrightarrow>
      m_trig_pin (foldl call_setter (IHCSR04_ctor trig_pin echo_pin timeout_us cm_per_us min_cycle_us) cs)
      \<noteq> m_echo_pin (foldl call_setter (IHCSR04_ctor trig_pin echo_pin timeout_us cm_per_us min_cycle_us) cs)"
    by (auto intro!: call_setters_pins simp: IHCSR04_ctor_def)
  moreover have "setTrigPin d (m_echo_pin d) = (HCSR04_ERR_BAD_PARAM, d)"
    "setEchoPin d (m_trig_pin d) = (HCSR04_ERR_BAD_PARAM, d)"
    by (simp_all add: setTrigPin_def setEchoPin_def)
  ultimately show ?thesis
    using call_setters_pins [of d cs] read_polling_pins [of dp out_cm w st out_cm' dp' w']
      read_interrupt_pins [of di out_cm w st out_cm' di' w'] echoChangeISR_pins [of di w di' w']
    by blast
qed

theorem pins_stay_distinct_witness:
  "(9 :: uint8_t) \<noteq> 8 \<and>
   foldl call_setter (IHCSR04_ctor 9 8 30000 HCSR04_CM_PER_US 60000)
     [SetTrigPin 8, SetEchoPin 9, SetTrigPin 7, SetEchoPin 9, SetTimeoutUs 50, SetSoundSpeed (Fin (16106127 / 268435456))]
   = IHCSR04_ctor 7 9 30000 HCSR04_CM_PER_US 60000 \<and>
   m_trig_pin (IHCSR04_ctor 7 9 30000 HCSR04_CM_PER_US 60000) \<noteq>
   m_echo_pin (IHCSR04_ctor 7 9 30000 HCSR04_CM_PER_US 60000) \<and>
   setTrigPin (IHCSR04_ctor 9 8 30000 HCSR04_CM_PER_US 60000) 8
     = (HCSR04_ERR_BAD_PARAM, IHCSR04_ctor 9 8 30000 HCSR04_CM_PER_US 60000) \<and>
   setEchoPin (IHCSR04_ctor 9 8 30000 HCSR04_CM_PER_US 60000) 9
     = (HCSR04_ERR_BAD_PARAM, IHCSR04_ctor 9 8 30000 HCSR04_CM_PER_US 60000)"
  using pins_stay_distinct [of "IHCSR04_ctor 9 8 30000 HCSR04_CM_PER_US 60000"
      "[SetTrigPin 8, SetEchoPin 9, SetTrigPin 7, SetEchoPin 9, SetTimeoutUs 50, SetSoundSpeed (Fin (16106127 / 268435456))]"
      9 8 30000 HCSR04_CM_PER_US 60000]
  by (simp add: IHCSR04_ctor_def setTrigPin_def setEchoPin_def setTimeoutUs_def
        HCSR04_TRIG_PULSE_US_def setSoundSpeed_Fin)

end
